theory Spec2Isabelle
  imports Complex_Main
begin

section \<open>Tensors\<close>

text \<open>
  A torch tensor is modelled by its shape together with its entries as nested lists, the
  outermost list running along axis 0. Carrying the shape beside the entries keeps the
  lengths of the inner axes known when an outer axis has length 0, as \<^verbatim>\<open>tensor.shape\<close>
  does. The entry type is any type with a zero (the spectral coefficients are complex).
\<close>

datatype 'a nest = Scalar 'a | Nest "'a nest list"

record 'a tensor =
  shape :: "nat list"
  entries :: "'a nest"

fun has_shape :: "nat list \<Rightarrow> 'a nest \<Rightarrow> bool" where
  "has_shape [] (Scalar x) = True"
| "has_shape (n # s) (Nest xs) = (length xs = n \<and> (\<forall>x \<in> set xs. has_shape s x))"
| "has_shape _ _ = False"

definition well_formed :: "'a tensor \<Rightarrow> bool" where
  "well_formed t = has_shape (shape t) (entries t)"

fun zeros :: "nat list \<Rightarrow> 'a::zero nest" where
  "zeros [] = Scalar 0"
| "zeros (n # s) = Nest (replicate n (zeros s))"

subsection \<open>The shift convention of \<^verbatim>\<open>torch.fft\<close>\<close>

text \<open>
  \<^verbatim>\<open>torch.fft.fftshift(x, dim)\<close> rolls every axis in \<^verbatim>\<open>dim\<close> by \<^verbatim>\<open>n // 2\<close> places towards
  higher indices, and \<^verbatim>\<open>torch.fft.ifftshift(x, dim)\<close> rolls it back by the same amount, where
  \<^verbatim>\<open>n\<close> is the length of the axis. Rolling by \<open>k\<close> towards higher indices is \<^const>\<open>rotate\<close> by
  \<open>n - k\<close>. The tests of the spectral resize call both with non-negative axis numbers.
\<close>

fun shift_axes :: "(nat \<Rightarrow> nat) \<Rightarrow> nat \<Rightarrow> nat list \<Rightarrow> 'a nest \<Rightarrow> 'a nest" where
  "shift_axes amount i dims (Scalar x) = Scalar x"
| "shift_axes amount i dims (Nest xs) =
     (let ys = map (shift_axes amount (Suc i) dims) xs
      in Nest (if i \<in> set dims then rotate (amount (length ys)) ys else ys))"

definition fftshift :: "nat list \<Rightarrow> 'a tensor \<Rightarrow> 'a tensor" where
  "fftshift dims t = t\<lparr>entries := shift_axes (\<lambda>n. n - n div 2) 0 dims (entries t)\<rparr>"

definition ifftshift :: "nat list \<Rightarrow> 'a tensor \<Rightarrow> 'a tensor" where
  "ifftshift dims t = t\<lparr>entries := shift_axes (\<lambda>n. n div 2) 0 dims (entries t)\<rparr>"

section \<open>Spectral resize of the Fourier layer\<close>

datatype error = AssertionError | ZeroDivisionError | TypeError | RuntimeError

text \<open>
  Modelled from the spec: \<^verbatim>\<open>FourierLayer._zero_padding\<close> and
  \<^verbatim>\<open>FourierLayer._remove_large_frequencies\<close> of
  \<^verbatim>\<open>continuity/operators/fourierlayer.py\<close>; the repository's sources here hold their
  tests (\<^verbatim>\<open>tests/operators/test_fourierlayer.py\<close>) but not the module itself.

  The spec, section 4.5: both operations work on a tensor whose spectral axes are in
  shifted order, the zero-frequency component centred. Zero-padding enlarges each spectral
  axis from its current length to the target length by inserting zero coefficients,
  "preserving the invariant that after un-shifting, index 0 is the zero-frequency term,
  low positive frequencies follow in increasing order, then the padded zeros, then negative
  frequencies"; for an even current length the Nyquist bin "must end up immediately
  following the padded zero block on the negative-frequency side". Non-spectral axes are
  left untouched and their target entries must equal the current length; padding only ever
  grows an axis.

  \<^verbatim>\<open>torch.fft.fftshift\<close> puts the zero-frequency term of an axis of length \<open>n\<close> at index
  \<open>n div 2\<close>, and \<^verbatim>\<open>ifftshift\<close> takes index \<open>m div 2\<close> of an axis of length \<open>m\<close> back to
  index 0. So a shifted axis of length \<open>n\<close> padded to length \<open>m\<close> gets
  \<open>m div 2 - n div 2\<close> zeros in front and the other zeros behind: symmetric padding, and
  when the number of zeros is odd the extra zero is in front for an odd \<open>n\<close> and behind
  for an even \<open>n\<close>. The tests fix the same numbers on the axis they shift: five
  frequencies padded to seven get one zero on each side, four frequencies padded to seven
  get one zero in front and two behind.

  The tests call both operations with \<^verbatim>\<open>dim=(0, 1)\<close> on a tensor that is shifted along
  axis 0 only, and expect the column added to axis 1 (three entries padded to four) behind
  the others: the last axis of \<^verbatim>\<open>dim\<close> is passed in standard order, as the half spectrum of
  a real transform is (non-negative frequencies only), and all its zeros go behind it.

  Frequency truncation is the inverse: it shrinks each spectral axis to the smaller target
  length, "discarding the highest-magnitude-frequency coefficients while retaining the
  zero-frequency term and the lowest-magnitude positive and negative frequencies". On a
  shifted axis of length \<open>n\<close> cut to length \<open>m\<close> the zero-frequency term goes from index
  \<open>n div 2\<close> to index \<open>m div 2\<close>: \<open>n div 2 - m div 2\<close> coefficients are taken from the
  front and the others from the back (the tests: seven to five drops one on each side,
  seven to four drops one in front and two behind); the last axis of \<^verbatim>\<open>dim\<close> loses its
  coefficients at the back (the tests: four to three drops the last column).
\<close>

fun pad_axes :: "nat \<Rightarrow> nat list \<Rightarrow> nat list \<Rightarrow> 'a::zero nest \<Rightarrow> 'a nest" where
  "pad_axes i dims (m # ms) (Nest xs) =
     (let ys = map (pad_axes (Suc i) dims ms) xs
      in if i \<in> set dims
         then (let l = (if i = last dims then 0 else m div 2 - length xs div 2);
                   r = m - length xs - l
               in Nest (replicate l (zeros ms) @ ys @ replicate r (zeros ms)))
         else Nest ys)"
| "pad_axes i dims ms t = t"

fun remove_axes :: "nat \<Rightarrow> nat list \<Rightarrow> nat list \<Rightarrow> 'a nest \<Rightarrow> 'a nest" where
  "remove_axes i dims (n # ns) (Nest xs) =
     (let ys = (if i \<in> set dims
                then (let l = (if i = last dims then 0 else length xs div 2 - n div 2)
                      in take n (drop l xs))
                else xs)
      in Nest (map (remove_axes (Suc i) dims ns) ys))"
| "remove_axes i dims ns t = t"

text \<open>
  The shapes a resize accepts: as many target entries as axes; a spectral axis may only
  grow (\<open>grow = True\<close>, padding) or only shrink (truncation); every other axis keeps its
  length.
\<close>

fun axes_ok :: "bool \<Rightarrow> nat \<Rightarrow> nat list \<Rightarrow> nat list \<Rightarrow> nat list \<Rightarrow> bool" where
  "axes_ok grow i dims [] [] = True"
| "axes_ok grow i dims (n # ns) (m # ms) =
     ((if i \<in> set dims then (if grow then n \<le> m else m \<le> n) else n = m)
      \<and> axes_ok grow (Suc i) dims ns ms)"
| "axes_ok grow i dims _ _ = False"

definition zero_padding :: "'a::zero tensor \<Rightarrow> nat list \<Rightarrow> nat list \<Rightarrow> error + 'a tensor" where
  "zero_padding fft_values target_shape dims =
     (if axes_ok True 0 dims (shape fft_values) target_shape
      then Inr \<lparr>shape = target_shape, entries = pad_axes 0 dims target_shape (entries fft_values)\<rparr>
      else Inl AssertionError)"

definition remove_large_frequencies ::
  "'a tensor \<Rightarrow> nat list \<Rightarrow> nat list \<Rightarrow> error + 'a tensor" where
  "remove_large_frequencies fft_values target_shape dims =
     (if axes_ok False 0 dims (shape fft_values) target_shape
      then Inr \<lparr>shape = target_shape,
                entries = remove_axes 0 dims target_shape (entries fft_values)\<rparr>
      else Inl AssertionError)"


subsection \<open>The inputs of the repository's tests\<close>

text \<open>
  The tensors of \<^verbatim>\<open>test_zero_padding\<close>, in standard order as the test writes them: five
  frequencies (odd) and four frequencies (even) along axis 0, three columns along axis 1.
\<close>

definition x_odd :: "real tensor" where
  "x_odd = \<lparr>shape = [5, 3], entries = Nest
     [Nest [Scalar 0, Scalar 1, Scalar 2],
      Nest [Scalar 0.1, Scalar 1.1, Scalar 2.1],
      Nest [Scalar 0.2, Scalar 1.2, Scalar 2.2],
      Nest [Scalar (- 0.2), Scalar 0.8, Scalar 1.8],
      Nest [Scalar (- 0.1), Scalar 0.9, Scalar 1.9]]\<rparr>"

definition x_even :: "real tensor" where
  "x_even = \<lparr>shape = [4, 3], entries = Nest
     [Nest [Scalar 0, Scalar 1, Scalar (- 2)],
      Nest [Scalar 0.1, Scalar 1.1, Scalar (- 1.9)],
      Nest [Scalar (- 0.2), Scalar 0.8, Scalar (- 2.2)],
      Nest [Scalar (- 0.1), Scalar 0.9, Scalar (- 2.1)]]\<rparr>"

text \<open>
  Four frequencies along axis 0 (zero, one positive, the Nyquist bin, one negative), one
  column along axis 1.
\<close>

definition x_four :: "int tensor" where
  "x_four = \<lparr>shape = [4, 1], entries = Nest
     [Nest [Scalar 10], Nest [Scalar 11], Nest [Scalar (- 12)], Nest [Scalar (- 11)]]\<rparr>"


definition x_batch_three :: "int tensor" where
  "x_batch_three = \<lparr>shape = [1, 3, 1], entries = Nest
     [Nest [Nest [Scalar 10], Nest [Scalar 11], Nest [Scalar (- 11)]]]\<rparr>"


section \<open>The trainer\<close>

subsection \<open>Devices and verbosity\<close>

text \<open>
  A \<^verbatim>\<open>torch.device\<close> has a type and an optional index. \<^verbatim>\<open>Trainer.__init__\<close> takes
  \<^verbatim>\<open>verbose: Optional[bool]\<close> and computes \<^verbatim>\<open>verbose or self.device.index == 0\<close> when
  the device has an index and \<^verbatim>\<open>verbose or True\<close> otherwise. Python's \<^verbatim>\<open>a or b\<close> is \<^verbatim>\<open>a\<close>
  when \<^verbatim>\<open>a\<close> is truthy and \<^verbatim>\<open>b\<close> otherwise; of \<^verbatim>\<open>None\<close>, \<^verbatim>\<open>False\<close> and \<^verbatim>\<open>True\<close> only
  \<^verbatim>\<open>True\<close> is truthy.
\<close>

record torch_device =
  dev_type :: string
  index :: "int option"

definition cpu :: torch_device where
  "cpu = \<lparr>dev_type = ''cpu'', index = None\<rparr>"

definition py_or :: "bool option \<Rightarrow> bool \<Rightarrow> bool" where
  "py_or a b = (case a of Some True \<Rightarrow> True | _ \<Rightarrow> b)"

record trainer =
  device :: torch_device
  verbose :: bool

definition Trainer_init :: "torch_device \<Rightarrow> bool option \<Rightarrow> trainer" where
  "Trainer_init dev verbose_arg =
     \<lparr>device = dev,
      verbose = (case index dev of
                   Some i \<Rightarrow> py_or verbose_arg (i = 0)
                 | None \<Rightarrow> py_or verbose_arg True)\<rparr>"

subsection \<open>Logs, criteria and callbacks\<close>

text \<open>
  \<^verbatim>\<open>fit\<close> builds \<^verbatim>\<open>Logs(epoch=epoch + 1, loss_train=loss_train, loss_test=loss_test)\<close>,
  where \<^verbatim>\<open>loss_test\<close> stays \<^verbatim>\<open>None\<close> without a test data set. Losses are Python floats;
  they are modelled by real numbers, on which \<open>\<le>\<close> and the mean are exact.
\<close>

record logs =
  epoch :: nat
  loss_train :: real
  loss_test :: "real option"

text \<open>
  Modelled from the spec: the criteria of \<^verbatim>\<open>continuity/trainer/criterion.py\<close>, a module
  that \<^verbatim>\<open>trainer.py\<close> imports and that is not among the sources here. The spec, section
  4.2: \<^verbatim>\<open>TrainingLossCriterion(tol)\<close> stops when \<^verbatim>\<open>loss_train <= tol\<close>;
  \<^verbatim>\<open>TestLossCriterion(tol)\<close> stops when \<^verbatim>\<open>loss_test <= tol\<close> and must not be evaluated
  without a test loss in the logs (comparing \<^verbatim>\<open>None\<close> with a float is a \<^verbatim>\<open>TypeError\<close>).
  A criterion of the caller's own is any predicate on the logs.
\<close>

datatype criterion =
    TrainingLossCriterion real
  | TestLossCriterion real
  | CustomCriterion "logs \<Rightarrow> bool"

fun criterion_call :: "criterion \<Rightarrow> logs \<Rightarrow> error + bool" where
  "criterion_call (TrainingLossCriterion tol) l = Inr (loss_train l \<le> tol)"
| "criterion_call (TestLossCriterion tol) l =
     (case loss_test l of None \<Rightarrow> Inl TypeError | Some lt \<Rightarrow> Inr (lt \<le> tol))"
| "criterion_call (CustomCriterion f) l = Inr (f l)"

text \<open>
  The callbacks \<^verbatim>\<open>fit\<close> creates itself are \<^verbatim>\<open>PrintTrainingLoss()\<close> and
  \<^verbatim>\<open>LinearLRScheduler(self.optimizer, epochs)\<close>; every other callback object comes from the
  caller and is told apart by a number. The argument \<^verbatim>\<open>lr_scheduler: Union[bool, Callback]\<close>
  is a flag or a callback.
\<close>

datatype callback =
    UserCallback nat
  | PrintTrainingLoss
  | LinearLRScheduler int

datatype lr_scheduler_arg = LrFlag bool | LrCallback callback

subsection \<open>List objects\<close>

text \<open>
  The caller's \<^verbatim>\<open>callbacks\<close> list is an object that \<^verbatim>\<open>fit\<close> may mutate, so lists live in a
  store: the list objects in order of creation, an object's address being its position.
  \<^verbatim>\<open>callbacks = callbacks or []\<close> keeps the caller's object when it is a non-empty list
  and creates a new empty list when the argument is \<^verbatim>\<open>None\<close> or an empty list.
\<close>

type_synonym addr = nat
type_synonym store = "callback list list"

definition callbacks_or_new :: "store \<Rightarrow> addr option \<Rightarrow> store \<times> addr" where
  "callbacks_or_new h arg =
     (case arg of
        None \<Rightarrow> (h @ [[]], length h)
      | Some a \<Rightarrow> (if h ! a = [] then (h @ [[]], length h) else (h, a)))"

definition list_append :: "store \<Rightarrow> addr \<Rightarrow> callback \<Rightarrow> store" where
  "list_append h a c = h[a := h ! a @ [c]]"

subsection \<open>What \<^verbatim>\<open>fit\<close> does, as a sequence of calls\<close>

text \<open>
  The operator, the optimizer, the loss function, the data sets and \<^verbatim>\<open>torch.distributed\<close>
  are collaborators. The model records every call \<^verbatim>\<open>fit\<close> makes on them, in order, and
  takes their answers from an environment: whether a process group is initialised, the
  number of batches \<^verbatim>\<open>len(data_loader)\<close>, the loss that \<^verbatim>\<open>optimizer.step(closure)\<close>
  returns for a batch of an epoch, and the loss of the test data set after an epoch; the
  last two may raise. Callbacks are taken to return normally.
\<close>

datatype message =
    ModelParameters nat
  | DeviceCuda nat
  | DeviceName torch_device

datatype event =
    Print message
  | OperatorTo torch_device
  | WrapDDP
  | CreateDataLoader int bool bool
  | OperatorTrain
  | OnTrainBegin callback
  | OptimizerStep nat nat
  | DatasetLoss nat
  | CallbackCall callback logs
  | CriterionCall logs
  | OnTrainEnd callback

record env =
  distributed :: bool
  world_size :: nat
  num_params :: nat
  num_batches :: nat
  batch_loss :: "nat \<Rightarrow> nat \<Rightarrow> error + real"
  test_loss :: "nat \<Rightarrow> error + real"

record fit_state =
  objects :: store
  trace :: "event list"
  operator_device :: torch_device

record fit_args =
  tol :: real
  epochs :: int
  callbacks :: "addr option"
  criterion :: "criterion option"
  batch_size :: int
  shuffle :: bool
  test_dataset :: bool
  lr_scheduler :: lr_scheduler_arg

definition emit :: "event \<Rightarrow> fit_state \<Rightarrow> fit_state" where
  "emit e st = st\<lparr>trace := trace st @ [e]\<rparr>"

definition emit_all :: "event list \<Rightarrow> fit_state \<Rightarrow> fit_state" where
  "emit_all es st = st\<lparr>trace := trace st @ es\<rparr>"

text \<open>
  The inner loop \<^verbatim>\<open>for x, u, y, v in data_loader\<close> of epoch \<open>e\<close>: \<open>k\<close> batches are left,
  \<open>b\<close> is the number of the next one and \<open>acc\<close> the running \<^verbatim>\<open>loss_train\<close>.
\<close>

fun run_batches :: "env \<Rightarrow> nat \<Rightarrow> nat \<Rightarrow> nat \<Rightarrow> real \<Rightarrow> fit_state \<Rightarrow> fit_state \<times> (error + real)" where
  "run_batches ev e b 0 acc st = (st, Inr acc)"
| "run_batches ev e b (Suc k) acc st =
     (let st' = emit (OptimizerStep e b) st
      in case batch_loss ev e b of
           Inl err \<Rightarrow> (st', Inl err)
         | Inr l \<Rightarrow> run_batches ev e (Suc b) k (acc + l) st')"

text \<open>
  The outer loop \<^verbatim>\<open>for epoch in range(epochs)\<close>, with \<open>k\<close> epochs left and \<open>e\<close> the
  current one. \<^verbatim>\<open>loss_train /= len(data_loader)\<close> divides by zero when the loader is
  empty. The result is \<open>None\<close> when the loop ends, by running out of epochs or by
  \<^verbatim>\<open>break\<close>, and \<open>Some err\<close> when it raises.
\<close>

fun run_epochs ::
  "env \<Rightarrow> callback list \<Rightarrow> criterion option \<Rightarrow> bool \<Rightarrow> nat \<Rightarrow> nat \<Rightarrow> fit_state
     \<Rightarrow> fit_state \<times> error option" where
  "run_epochs ev cbs crit has_test e 0 st = (st, None)"
| "run_epochs ev cbs crit has_test e (Suc k) st =
     (case run_batches ev e 0 (num_batches ev) 0 st of
        (st1, Inl err) \<Rightarrow> (st1, Some err)
      | (st1, Inr loss_sum) \<Rightarrow>
          if num_batches ev = 0 then (st1, Some ZeroDivisionError)
          else
            (let lt = loss_sum / real (num_batches ev);
                 st2 = (if has_test then emit (DatasetLoss e) st1 else st1)
             in case (if has_test then map_sum id Some (test_loss ev e) else Inr None) of
                  Inl err \<Rightarrow> (st2, Some err)
                | Inr ltest \<Rightarrow>
                    (let l = \<lparr>epoch = e + 1, loss_train = lt, loss_test = ltest\<rparr>;
                         st3 = emit_all (map (\<lambda>c. CallbackCall c l) cbs) st2
                     in case crit of
                          None \<Rightarrow> run_epochs ev cbs crit has_test (Suc e) k st3
                        | Some c \<Rightarrow>
                            (let st4 = emit (CriterionCall l) st3
                             in case criterion_call c l of
                                  Inl err \<Rightarrow> (st4, Some err)
                                | Inr True \<Rightarrow> (st4, None)
                                | Inr False \<Rightarrow>
                                    run_epochs ev cbs crit has_test (Suc e) k st4))))"

text \<open>The default criterion of \<^verbatim>\<open>fit\<close> (the lines under \<^verbatim>\<open># Default criterion\<close>).\<close>

definition default_criterion :: "criterion option \<Rightarrow> bool \<Rightarrow> real \<Rightarrow> criterion" where
  "default_criterion crit has_test tolerance =
     (case crit of
        Some c \<Rightarrow> c
      | None \<Rightarrow> if \<not> has_test then TrainingLossCriterion tolerance else TestLossCriterion tolerance)"

text \<open>
  The callbacks \<^verbatim>\<open>fit\<close> appends to the list: \<^verbatim>\<open>PrintTrainingLoss()\<close> when the trainer is
  verbose, then the scheduler unless \<^verbatim>\<open>lr_scheduler is False\<close>.
\<close>

definition own_callbacks :: "trainer \<Rightarrow> fit_args \<Rightarrow> callback list" where
  "own_callbacks tr args =
     (if verbose tr then [PrintTrainingLoss] else [])
     @ (case lr_scheduler args of
          LrFlag False \<Rightarrow> []
        | LrFlag True \<Rightarrow> [LinearLRScheduler (epochs args)]
        | LrCallback c \<Rightarrow> [c])"

definition setup_events :: "trainer \<Rightarrow> env \<Rightarrow> fit_args \<Rightarrow> event list" where
  "setup_events tr ev args =
     (if distributed ev
      then [WrapDDP]
           @ (if verbose tr then [Print (DeviceCuda (world_size ev))] else [])
           @ [CreateDataLoader (batch_size args) False True]
      else (if verbose tr then [Print (DeviceName (device tr))] else [])
           @ [CreateDataLoader (batch_size args) (shuffle args) False])"

definition fit :: "trainer \<Rightarrow> env \<Rightarrow> fit_args \<Rightarrow> fit_state \<Rightarrow> fit_state \<times> error option" where
  "fit tr ev args st =
     (let (h1, a) = callbacks_or_new (objects st) (callbacks args);
          h2 = (if verbose tr then list_append h1 a PrintTrainingLoss else h1);
          h3 = (case lr_scheduler args of
                  LrFlag False \<Rightarrow> h2
                | LrFlag True \<Rightarrow> list_append h2 a (LinearLRScheduler (epochs args))
                | LrCallback c \<Rightarrow> list_append h2 a c);
          crit = Some (default_criterion (criterion args) (test_dataset args) (tol args));
          st1 = st\<lparr>objects := h3\<rparr>;
          st2 = (if verbose tr then emit (Print (ModelParameters (num_params ev))) st1 else st1);
          st3 = (emit (OperatorTo (device tr)) st2)\<lparr>operator_device := device tr\<rparr>;
          st4 = emit_all (setup_events tr ev args) st3;
          st5 = emit_all (map OnTrainBegin (objects st4 ! a)) st4;
          st6 = emit OperatorTrain st5
      in case run_epochs ev (objects st6 ! a) crit (test_dataset args) 0 (nat (epochs args)) st6 of
           (st7, Some err) \<Rightarrow> (st7, Some err)
         | (st7, None) \<Rightarrow>
             (let st8 = emit_all (map OnTrainEnd (objects st7 ! a)) st7;
                  st9 = (emit (OperatorTo cpu) st8)\<lparr>operator_device := cpu\<rparr>
              in (st9, None)))"


subsection \<open>Reading the sequence of calls\<close>

text \<open>
  The calls of the training loop proper (optimizer steps, test losses, callbacks called
  with the logs, criterion calls) and the calls that prepare it; the list of callbacks in
  effect, which is the caller's list followed by the callbacks \<^verbatim>\<open>fit\<close> appends; and the
  condition that a list argument refers to an existing list object.
\<close>

fun epoch_event :: "event \<Rightarrow> bool" where
  "epoch_event (OptimizerStep e b) = True"
| "epoch_event (DatasetLoss e) = True"
| "epoch_event (CallbackCall c l) = True"
| "epoch_event (CriterionCall l) = True"
| "epoch_event _ = False"

fun preparation_event :: "event \<Rightarrow> bool" where
  "preparation_event (Print m) = True"
| "preparation_event (OperatorTo d) = True"
| "preparation_event WrapDDP = True"
| "preparation_event (CreateDataLoader n s d) = True"
| "preparation_event _ = False"

definition effective_callbacks :: "trainer \<Rightarrow> fit_args \<Rightarrow> fit_state \<Rightarrow> callback list" where
  "effective_callbacks tr args st =
     (case callbacks args of None \<Rightarrow> [] | Some a \<Rightarrow> objects st ! a) @ own_callbacks tr args"

definition valid_reference :: "fit_args \<Rightarrow> fit_state \<Rightarrow> bool" where
  "valid_reference args st = (case callbacks args of None \<Rightarrow> True | Some a \<Rightarrow> a < length (objects st))"

text \<open>
  The logs \<^verbatim>\<open>fit\<close> has passed to the criterion, in the order of the calls.
\<close>

fun criterion_logs :: "event list \<Rightarrow> logs list" where
  "criterion_logs [] = []"
| "criterion_logs (CriterionCall l # es) = l # criterion_logs es"
| "criterion_logs (x # es) = criterion_logs es"

text \<open>
  The stopping rule of the spec, section 4.2, for a loop over \<open>k\<close> epochs from epoch
  \<open>e\<close> on, where \<open>loss e\<close> is the training loss of epoch \<open>e\<close> and \<open>t\<close> the
  tolerance: the epochs that run are those up to and including the first whose training
  loss is at most \<open>t\<close>, and all \<open>k\<close> of them when there is none.
\<close>

fun stopping_epochs :: "(nat \<Rightarrow> real) \<Rightarrow> real \<Rightarrow> nat \<Rightarrow> nat \<Rightarrow> nat list" where
  "stopping_epochs loss t e 0 = []"
| "stopping_epochs loss t e (Suc k) =
     e # (if loss e \<le> t then [] else stopping_epochs loss t (Suc e) k)"

text \<open>
  Auxiliary notions for the proofs: a state that differs from another by calls of the
  training loop only; the store after \<^verbatim>\<open>fit\<close> has appended its callbacks to the list at
  address \<open>a\<close>; the state when the loop over the epochs starts.
\<close>

definition epoch_extension :: "fit_state \<Rightarrow> fit_state \<Rightarrow> bool" where
  "epoch_extension st st' =
     (\<exists>mid. trace st' = trace st @ mid \<and> (\<forall>x\<in>set mid. epoch_event x)
        \<and> objects st' = objects st \<and> operator_device st' = operator_device st)"

definition appended :: "trainer \<Rightarrow> fit_args \<Rightarrow> store \<Rightarrow> addr \<Rightarrow> store" where
  "appended tr args h1 a =
     (let h2 = (if verbose tr then list_append h1 a PrintTrainingLoss else h1)
      in case lr_scheduler args of
           LrFlag False \<Rightarrow> h2
         | LrFlag True \<Rightarrow> list_append h2 a (LinearLRScheduler (epochs args))
         | LrCallback c \<Rightarrow> list_append h2 a c)"

definition prepared :: "trainer \<Rightarrow> env \<Rightarrow> fit_args \<Rightarrow> fit_state \<Rightarrow> store \<Rightarrow> addr \<Rightarrow> fit_state" where
  "prepared tr ev args st h a =
     emit OperatorTrain
       (emit_all (map OnTrainBegin (h ! a))
         (emit_all (setup_events tr ev args)
           ((emit (OperatorTo (device tr))
              (if verbose tr
               then emit (Print (ModelParameters (num_params ev))) (st\<lparr>objects := h\<rparr>)
               else st\<lparr>objects := h\<rparr>))\<lparr>operator_device := device tr\<rparr>)))"

subsection \<open>Example runs\<close>

text \<open>
  A trainer on the CPU (no device index, hence verbose) and one on \<^verbatim>\<open>cuda:1\<close> built with
  \<^verbatim>\<open>verbose=False\<close>; a data loader of two batches whose losses are 1 in every epoch; a
  caller who passes the list \<^verbatim>\<open>[cb]\<close> of one callback of its own.
\<close>

definition cuda1 :: torch_device where
  "cuda1 = \<lparr>dev_type = ''cuda'', index = Some 1\<rparr>"

definition tr_cpu :: trainer where
  "tr_cpu = Trainer_init cpu None"

definition tr_quiet :: trainer where
  "tr_quiet = Trainer_init cuda1 (Some False)"

definition env_ex :: env where
  "env_ex = \<lparr>distributed = False, world_size = 1, num_params = 10, num_batches = 2,
             batch_loss = (\<lambda>e b. Inr 1), test_loss = (\<lambda>e. Inr 1)\<rparr>"

definition args_ex :: fit_args where
  "args_ex = \<lparr>tol = 1, epochs = 3, callbacks = Some 0, criterion = None, batch_size = 32,
              shuffle = True, test_dataset = False, lr_scheduler = LrFlag True\<rparr>"

definition st_ex :: fit_state where
  "st_ex = \<lparr>objects = [[UserCallback 0]], trace = [], operator_device = cpu\<rparr>"

section \<open>The mean-squared-error loss\<close>

text \<open>
  \<^verbatim>\<open>MSELoss.__call__\<close> calls the operator, reshapes the prediction with
  \<^verbatim>\<open>v_pred.reshape(v.shape)\<close> and returns \<^verbatim>\<open>torch.nn.MSELoss()(v_pred, v)\<close>.
  \<^verbatim>\<open>reshape\<close> keeps the entries in row-major order and raises a \<^verbatim>\<open>RuntimeError\<close> when the
  requested shape holds another number of entries. The loss with its default mean
  reduction is the mean of the squared differences, and \<^verbatim>\<open>nan\<close> for tensors without entries.
  Entries are floats, modelled by real numbers: rounding is not part of the model.
\<close>

fun flatten :: "'a nest \<Rightarrow> 'a list" where
  "flatten (Scalar x) = [x]"
| "flatten (Nest xs) = concat (map flatten xs)"

fun unflatten :: "nat list \<Rightarrow> 'a::zero list \<Rightarrow> 'a nest" where
  "unflatten [] xs = Scalar (case xs of [] \<Rightarrow> 0 | x # _ \<Rightarrow> x)"
| "unflatten (n # s) xs =
     Nest (map (\<lambda>i. unflatten s (take (prod_list s) (drop (i * prod_list s) xs))) [0..<n])"

definition reshape :: "'a::zero tensor \<Rightarrow> nat list \<Rightarrow> error + 'a tensor" where
  "reshape t s =
     (if prod_list s = prod_list (shape t)
      then Inr \<lparr>shape = s, entries = unflatten s (flatten (entries t))\<rparr>
      else Inl RuntimeError)"

datatype loss_value = Value real | NaN

definition mean_squared_error :: "real list \<Rightarrow> real list \<Rightarrow> loss_value" where
  "mean_squared_error ps vs =
     (let d = map2 (\<lambda>p v. (p - v)\<^sup>2) ps vs
      in if d = [] then NaN else Value (sum_list d / real (length d)))"

definition mse :: "real tensor \<Rightarrow> real tensor \<Rightarrow> loss_value" where
  "mse input target = mean_squared_error (flatten (entries input)) (flatten (entries target))"

definition MSELoss_call ::
  "('t \<Rightarrow> 't \<Rightarrow> 't \<Rightarrow> error + real tensor) \<Rightarrow> 't \<Rightarrow> 't \<Rightarrow> 't \<Rightarrow> real tensor
     \<Rightarrow> error + loss_value" where
  "MSELoss_call op x u y v =
     (case op x u y of
        Inl err \<Rightarrow> Inl err
      | Inr v_pred \<Rightarrow>
          (case reshape v_pred (shape v) of
             Inl err \<Rightarrow> Inl err
           | Inr v_pred' \<Rightarrow> Inr (mse v_pred' v)))"

text \<open>
  An operator that returns its input values \<^verbatim>\<open>u\<close> with the two trailing axes merged, and
  a batch to call it on: one sample, two evaluation points, one channel.
\<close>

definition op_ex :: "real tensor \<Rightarrow> real tensor \<Rightarrow> real tensor \<Rightarrow> error + real tensor" where
  "op_ex x u y = Inr \<lparr>shape = [1, 2], entries = Nest [Nest [Scalar 1, Scalar 3]]\<rparr>"

definition v_ex :: "real tensor" where
  "v_ex = \<lparr>shape = [1, 2, 1], entries = Nest [Nest [Nest [Scalar 0], Nest [Scalar 1]]]\<rparr>"

definition v_three :: "real tensor" where
  "v_three = \<lparr>shape = [1, 3, 1],
              entries = Nest [Nest [Nest [Scalar 0], Nest [Scalar 1], Nest [Scalar 2]]]\<rparr>"


section \<open>Properties of the spectral resize\<close>

subsection \<open>Lists\<close>




lemma centred_le: "n \<le> m \<Longrightarrow> m div 2 - n div 2 \<le> m - (n::nat)"
  by linarith




subsection \<open>Shapes\<close>

lemma has_shape_zeros: "has_shape s (zeros s :: 'a::zero nest)"
  by (induction s) simp_all

lemma axes_ok_converse: "axes_ok True i dims s t \<Longrightarrow> axes_ok False i dims t s"
proof (induction s arbitrary: i t)
  case Nil
  then show ?case by (cases t) simp_all
next
  case (Cons n ns)
  then obtain m ms where t: "t = m # ms" by (cases t) simp_all
  from Cons.prems have "axes_ok True (Suc i) dims ns ms" unfolding t by simp
  then have "axes_ok False (Suc i) dims ms ns" by (rule Cons.IH)
  with Cons.prems show ?case unfolding t by (simp split: if_splits)
qed

lemma has_shape_NestE:
  assumes "has_shape s (Nest xs)"
  obtains n ns where "s = n # ns" and "length xs = n" and "\<forall>x\<in>set xs. has_shape ns x"
  using assms by (cases s) simp_all

lemma axes_ok_grow_Cons:
  assumes "axes_ok True i dims (n # ns) t"
  shows "\<exists>m ms. t = m # ms \<and> axes_ok True (Suc i) dims ns ms \<and> n \<le> m
           \<and> (i \<notin> set dims \<longrightarrow> n = m)"
  using assms by (cases t) (simp_all split: if_splits)

lemma has_shape_Scalar_pad: "has_shape s (Scalar a) \<Longrightarrow> axes_ok grow i dims s t \<Longrightarrow> t = []"
  by (cases s; cases t) simp_all

text \<open>The zeros in front of a padded axis and the zeros behind it fill the axis.\<close>

lemma front_le:
  "n \<le> m \<Longrightarrow> (if i = last dims then 0 else m div 2 - n div 2) \<le> m - (n::nat)"
  by (simp add: centred_le)

lemma pad_axes_Nest:
  assumes "i \<in> set dims"
  shows "pad_axes i dims (m # ms) (Nest xs)
         = Nest (replicate (if i = last dims then 0 else m div 2 - length xs div 2) (zeros ms)
                 @ map (pad_axes (Suc i) dims ms) xs
                 @ replicate (m - length xs - (if i = last dims then 0 else m div 2 - length xs div 2))
                     (zeros ms))"
  using assms by (simp add: Let_def)

lemma has_shape_pad_axes:
  "has_shape s x \<Longrightarrow> axes_ok True i dims s t \<Longrightarrow> has_shape t (pad_axes i dims t x)"
proof (induction x arbitrary: s t i)
  case (Scalar a)
  then have "t = []" by (rule has_shape_Scalar_pad)
  then show ?case by simp
next
  case (Nest xs)
  from Nest.prems(1) obtain n ns where s: "s = n # ns" and len: "length xs = n"
    and el: "\<forall>x\<in>set xs. has_shape ns x" by (rule has_shape_NestE)
  from Nest.prems(2) obtain m ms where t: "t = m # ms"
    and ok: "axes_ok True (Suc i) dims ns ms"
    and nm: "n \<le> m" and same: "i \<notin> set dims \<longrightarrow> n = m"
    unfolding s using axes_ok_grow_Cons by blast
  have inner: "\<forall>x\<in>set xs. has_shape ms (pad_axes (Suc i) dims ms x)"
    using Nest.IH el ok by blast
  show ?case
  proof (cases "i \<in> set dims")
    case True
    define l where "l = (if i = last dims then 0 else m div 2 - n div 2)"
    from nm have "l \<le> m - n" unfolding l_def by (rule front_le)
    with nm have total: "l + n + (m - n - l) = m" by linarith
    have "pad_axes i dims t (Nest xs)
          = Nest (replicate l (zeros ms) @ map (pad_axes (Suc i) dims ms) xs
                  @ replicate (m - n - l) (zeros ms))"
      unfolding t l_def len [symmetric] using True by (rule pad_axes_Nest)
    with total inner len show ?thesis unfolding t
      by (simp add: ball_Un has_shape_zeros)
  next
    case False
    with inner len same show ?thesis unfolding t by (simp add: Let_def)
  qed
qed

lemma remove_pad_axes:
  "has_shape s x \<Longrightarrow> axes_ok True i dims s t \<Longrightarrow> remove_axes i dims s (pad_axes i dims t x) = x"
proof (induction x arbitrary: s t i)
  case (Scalar a)
  then have "t = []" by (rule has_shape_Scalar_pad)
  then show ?case by simp
next
  case (Nest xs)
  from Nest.prems(1) obtain n ns where s: "s = n # ns" and len: "length xs = n"
    and el: "\<forall>x\<in>set xs. has_shape ns x" by (rule has_shape_NestE)
  from Nest.prems(2) obtain m ms where t: "t = m # ms"
    and ok: "axes_ok True (Suc i) dims ns ms"
    and nm: "n \<le> m" and same: "i \<notin> set dims \<longrightarrow> n = m"
    unfolding s using axes_ok_grow_Cons by blast
  have "\<forall>x\<in>set xs. remove_axes (Suc i) dims ns (pad_axes (Suc i) dims ms x) = x"
    using Nest.IH el ok by blast
  then have inner: "map (remove_axes (Suc i) dims ns) (map (pad_axes (Suc i) dims ms) xs) = xs"
    by (simp add: map_idI)
  show ?case
  proof (cases "i \<in> set dims")
    case True
    define l where "l = (if i = last dims then 0 else m div 2 - n div 2)"
    define r where "r = m - n - l"
    define ys where "ys = map (pad_axes (Suc i) dims ms) xs"
    define zs where "zs = replicate l (zeros ms :: 'a nest) @ ys @ replicate r (zeros ms)"
    have ylen: "length ys = n" by (simp add: ys_def len)
    from nm have "l \<le> m - n" unfolding l_def by (rule front_le)
    with nm have "l + n + r = m" unfolding r_def by linarith
    then have zlen: "length zs = m" by (simp add: zs_def ylen)
    have pad: "pad_axes i dims t (Nest xs) = Nest zs"
      unfolding t zs_def r_def l_def ys_def len [symmetric] using True by (rule pad_axes_Nest)
    have "take n (drop l zs) = ys"
      using ylen by (simp add: zs_def)
    then have "take n (drop (if i = last dims then 0 else length zs div 2 - n div 2) zs) = ys"
      by (simp only: zlen l_def)
    then have "remove_axes i dims s (Nest zs) = Nest (map (remove_axes (Suc i) dims ns) ys)"
      unfolding s using True by (simp add: Let_def)
    with pad inner show ?thesis by (simp add: ys_def)
  next
    case False
    with inner show ?thesis unfolding s t by (simp add: Let_def)
  qed
qed

subsection \<open>Padding, then truncating\<close>

lemma well_formed_x_even: "well_formed (fftshift [0] x_even)"
  by (simp add: well_formed_def fftshift_def x_even_def)

text \<open>
  Claim C1. Whatever the rank of the tensor, the set of spectral axes (one axis, two axes,
  any number) and the parity of their lengths: zero-padding a tensor to a target shape and
  then removing the large frequencies down to the original shape returns the original
  tensor, entry for entry. The padded tensor has the target shape in between.
\<close>

theorem pad_then_truncate:
  assumes "well_formed t" and "axes_ok True 0 dims (shape t) target_shape"
  shows "\<exists>padded. zero_padding t target_shape dims = Inr padded
           \<and> shape padded = target_shape \<and> well_formed padded
           \<and> remove_large_frequencies padded (shape t) dims = Inr t"
proof -
  let ?padded = "\<lparr>shape = target_shape, entries = pad_axes 0 dims target_shape (entries t)\<rparr>"
  from assms(2) have pad: "zero_padding t target_shape dims = Inr ?padded"
    by (simp add: zero_padding_def)
  from assms have wf: "well_formed ?padded"
    by (simp add: well_formed_def has_shape_pad_axes)
  from assms(2) have conv: "axes_ok False 0 dims target_shape (shape t)"
    by (rule axes_ok_converse)
  from assms have "remove_axes 0 dims (shape t) (pad_axes 0 dims target_shape (entries t)) = entries t"
    by (simp add: well_formed_def remove_pad_axes)
  with conv have "remove_large_frequencies ?padded (shape t) dims = Inr t"
    by (simp add: remove_large_frequencies_def)
  with pad wf show ?thesis by simp
qed

theorem pad_then_truncate_witness:
  "well_formed (fftshift [0] x_even)
   \<and> axes_ok True 0 [0, 1] (shape (fftshift [0] x_even)) [7, 4]
   \<and> (\<exists>padded. zero_padding (fftshift [0] x_even) [7, 4] [0, 1] = Inr padded
           \<and> shape padded = [7, 4] \<and> well_formed padded
           \<and> remove_large_frequencies padded (shape (fftshift [0] x_even)) [0, 1]
               = Inr (fftshift [0] x_even))"
proof -
  have ok: "axes_ok True 0 [0, 1] (shape (fftshift [0] x_even)) [7, 4]"
    by (simp add: fftshift_def x_even_def)
  from pad_then_truncate [OF well_formed_x_even ok] well_formed_x_even ok
  show ?thesis by simp
qed


subsection \<open>Back to standard order after padding\<close>












subsection \<open>The repository's tests, evaluated on the model\<close>

lemma replicate_numeral: "replicate (numeral k) x = x # replicate (pred_numeral k) x"
  by (simp add: numeral_eq_Suc)

lemmas resize_eval = zero_padding_def remove_large_frequencies_def fftshift_def ifftshift_def
  Let_def rotate_drop_take replicate_numeral

lemma test_zero_padding_odd:
  "map_sum id (ifftshift [0]) (zero_padding (fftshift [0] x_odd) [7, 4] [0, 1])
   = Inr \<lparr>shape = [7, 4], entries = Nest
       [Nest [Scalar 0, Scalar 1, Scalar 2, Scalar 0],
        Nest [Scalar 0.1, Scalar 1.1, Scalar 2.1, Scalar 0],
        Nest [Scalar 0.2, Scalar 1.2, Scalar 2.2, Scalar 0],
        Nest [Scalar 0, Scalar 0, Scalar 0, Scalar 0],
        Nest [Scalar 0, Scalar 0, Scalar 0, Scalar 0],
        Nest [Scalar (- 0.2), Scalar 0.8, Scalar 1.8, Scalar 0],
        Nest [Scalar (- 0.1), Scalar 0.9, Scalar 1.9, Scalar 0]]\<rparr>"
  by (simp add: resize_eval x_odd_def)

lemma test_zero_padding_even:
  "map_sum id (ifftshift [0]) (zero_padding (fftshift [0] x_even) [7, 4] [0, 1])
   = Inr \<lparr>shape = [7, 4], entries = Nest
       [Nest [Scalar 0, Scalar 1, Scalar (- 2), Scalar 0],
        Nest [Scalar 0.1, Scalar 1.1, Scalar (- 1.9), Scalar 0],
        Nest [Scalar 0, Scalar 0, Scalar 0, Scalar 0],
        Nest [Scalar 0, Scalar 0, Scalar 0, Scalar 0],
        Nest [Scalar 0, Scalar 0, Scalar 0, Scalar 0],
        Nest [Scalar (- 0.2), Scalar 0.8, Scalar (- 2.2), Scalar 0],
        Nest [Scalar (- 0.1), Scalar 0.9, Scalar (- 2.1), Scalar 0]]\<rparr>"
  by (simp add: resize_eval x_even_def)

lemma test_remove_large_frequencies_odd:
  "map_sum id (ifftshift [0]) (remove_large_frequencies (fftshift [0]
     \<lparr>shape = [7, 4], entries = Nest
       [Nest [Scalar 0, Scalar 1, Scalar 2, Scalar 0],
        Nest [Scalar 0.1, Scalar 1.1, Scalar 2.1, Scalar 0],
        Nest [Scalar 0.2, Scalar 1.2, Scalar 2.2, Scalar 0],
        Nest [Scalar 0, Scalar 0, Scalar 0, Scalar 0],
        Nest [Scalar 0, Scalar 0, Scalar 0, Scalar 0],
        Nest [Scalar (- 0.2), Scalar 0.8, Scalar 1.8, Scalar 0],
        Nest [Scalar (- 0.1), Scalar 0.9, Scalar 1.9, Scalar 0]]\<rparr>) [5, 3] [0, 1])
   = Inr x_odd"
  by (simp add: resize_eval x_odd_def)

lemma test_remove_large_frequencies_even:
  "map_sum id (ifftshift [0]) (remove_large_frequencies (fftshift [0]
     \<lparr>shape = [7, 4], entries = Nest
       [Nest [Scalar 0, Scalar 1, Scalar (- 2), Scalar 0],
        Nest [Scalar 0.1, Scalar 1.1, Scalar (- 1.9), Scalar 0],
        Nest [Scalar 0, Scalar 0, Scalar 0, Scalar 0],
        Nest [Scalar 0, Scalar 0, Scalar 0, Scalar 0],
        Nest [Scalar 0, Scalar 0, Scalar 0, Scalar 0],
        Nest [Scalar (- 0.2), Scalar 0.8, Scalar (- 2.2), Scalar 0],
        Nest [Scalar (- 0.1), Scalar 0.9, Scalar (- 2.1), Scalar 0]]\<rparr>) [4, 3] [0, 1])
   = Inr x_even"
  by (simp add: resize_eval x_even_def)

text \<open>
  On a shifted axis the truncation keeps the zero-frequency term and the lowest
  frequencies on both sides: four frequencies cut to three lose the Nyquist bin, three
  frequencies padded to four have their zero after the positive frequency.
\<close>

lemma remove_four_to_three:
  "map_sum id (ifftshift [0]) (remove_large_frequencies (fftshift [0] x_four) [3, 1] [0, 1])
   = Inr \<lparr>shape = [3, 1], entries = Nest [Nest [Scalar 10], Nest [Scalar 11], Nest [Scalar (- 11)]]\<rparr>"
  by (simp add: resize_eval x_four_def)

lemma pad_three_to_four:
  "map_sum id (ifftshift [1]) (zero_padding (fftshift [1] x_batch_three) [1, 4, 1] [1, 2])
   = Inr \<lparr>shape = [1, 4, 1], entries = Nest
       [Nest [Nest [Scalar 10], Nest [Scalar 11], Nest [Scalar 0], Nest [Scalar (- 11)]]]\<rparr>"
  by (simp add: resize_eval x_batch_three_def)




subsection \<open>The claims about the spectral resize\<close>









section \<open>Properties of the trainer\<close>

subsection \<open>The training loop only adds calls of its own\<close>

lemma emit_simps [simp]:
  "trace (emit x st) = trace st @ [x]"
  "objects (emit x st) = objects st"
  "operator_device (emit x st) = operator_device st"
  by (simp_all add: emit_def)

lemma emit_all_simps [simp]:
  "trace (emit_all xs st) = trace st @ xs"
  "objects (emit_all xs st) = objects st"
  "operator_device (emit_all xs st) = operator_device st"
  by (simp_all add: emit_all_def)

lemma run_batches_trace:
  "run_batches ev e b k acc st = (st', r) \<Longrightarrow>
     \<exists>mid. trace st' = trace st @ mid \<and> (\<forall>x\<in>set mid. epoch_event x)
       \<and> objects st' = objects st \<and> operator_device st' = operator_device st"
proof (induction k arbitrary: b acc st)
  case 0
  then show ?case by simp
next
  case (Suc k)
  let ?st1 = "emit (OptimizerStep e b) st"
  show ?case
  proof (cases "batch_loss ev e b")
    case (Inl err)
    with Suc.prems have "st' = ?st1" by (simp add: Let_def)
    then have "trace st' = trace st @ [OptimizerStep e b]" "objects st' = objects st"
      "operator_device st' = operator_device st" by simp_all
    then show ?thesis by (intro exI [of _ "[OptimizerStep e b]"]) simp
  next
    case (Inr l)
    with Suc.prems have "run_batches ev e (Suc b) k (acc + l) ?st1 = (st', r)"
      by (simp add: Let_def)
    from Suc.IH [OF this] obtain mid where
      "trace st' = trace ?st1 @ mid" "\<forall>x\<in>set mid. epoch_event x"
      "objects st' = objects ?st1" "operator_device st' = operator_device ?st1" by blast
    then show ?thesis by (intro exI [of _ "OptimizerStep e b # mid"]) simp
  qed
qed

lemma epoch_extension_refl: "epoch_extension st st"
  by (simp add: epoch_extension_def)

lemma epoch_extension_trans:
  assumes "epoch_extension st1 st2" and "epoch_extension st2 st3"
  shows "epoch_extension st1 st3"
proof -
  from assms(1) obtain m1 where 1: "trace st2 = trace st1 @ m1" "\<forall>x\<in>set m1. epoch_event x"
    "objects st2 = objects st1" "operator_device st2 = operator_device st1"
    unfolding epoch_extension_def by blast
  from assms(2) obtain m2 where 2: "trace st3 = trace st2 @ m2" "\<forall>x\<in>set m2. epoch_event x"
    "objects st3 = objects st2" "operator_device st3 = operator_device st2"
    unfolding epoch_extension_def by blast
  from 1 2 have "trace st3 = trace st1 @ (m1 @ m2)" "\<forall>x\<in>set (m1 @ m2). epoch_event x"
    "objects st3 = objects st1" "operator_device st3 = operator_device st1" by auto
  then show ?thesis unfolding epoch_extension_def by blast
qed

lemma epoch_extension_emit: "epoch_event x \<Longrightarrow> epoch_extension st (emit x st)"
  unfolding epoch_extension_def by (intro exI [of _ "[x]"]) simp

lemma epoch_extension_emit_all:
  "\<forall>x\<in>set xs. epoch_event x \<Longrightarrow> epoch_extension st (emit_all xs st)"
  unfolding epoch_extension_def by (intro exI [of _ xs]) simp

lemma run_batches_extension:
  "run_batches ev e b k acc st = (st', r) \<Longrightarrow> epoch_extension st st'"
  unfolding epoch_extension_def by (rule run_batches_trace)

lemma run_epochs_extension:
  "run_epochs ev cbs crit ht e k st = (st', r) \<Longrightarrow> epoch_extension st st'"
proof (induction k arbitrary: e st)
  case 0
  then show ?case by (simp add: epoch_extension_refl)
next
  case (Suc k)
  obtain st1 rb where rb: "run_batches ev e 0 (num_batches ev) 0 st = (st1, rb)"
    by (cases "run_batches ev e 0 (num_batches ev) 0 st")
  then have e1: "epoch_extension st st1" by (rule run_batches_extension)
  show ?case
  proof (cases rb)
    case (Inl err)
    with Suc.prems rb have "st' = st1" by simp
    with e1 show ?thesis by simp
  next
    case (Inr loss_sum)
    show ?thesis
    proof (cases "num_batches ev = 0")
      case True
      with Suc.prems rb Inr have "st' = st1" by simp
      with e1 show ?thesis by simp
    next
      case False
      define st2 where "st2 = (if ht then emit (DatasetLoss e) st1 else st1)"
      have e2: "epoch_extension st st2"
        unfolding st2_def using e1 epoch_extension_emit [of "DatasetLoss e" st1]
        by (auto intro: epoch_extension_trans)
      show ?thesis
      proof (cases "if ht then map_sum id Some (test_loss ev e) else Inr None")
        case (Inl err)
        with Suc.prems rb Inr False have "st' = st2" by (simp add: Let_def st2_def)
        with e2 show ?thesis by simp
      next
        case ltest: (Inr ltest)
        define l where "l = \<lparr>epoch = e + 1, loss_train = loss_sum / real (num_batches ev),
                               loss_test = ltest\<rparr>"
        define st3 where "st3 = emit_all (map (\<lambda>c. CallbackCall c l) cbs) st2"
        have "epoch_extension st2 st3"
          unfolding st3_def by (rule epoch_extension_emit_all) simp
        with e2 have e3: "epoch_extension st st3" by (rule epoch_extension_trans)
        show ?thesis
        proof (cases crit)
          case None
          with Suc.prems rb Inr False ltest
          have "run_epochs ev cbs crit ht (Suc e) k st3 = (st', r)"
            by (simp add: Let_def st2_def st3_def l_def)
          then have "epoch_extension st3 st'" by (rule Suc.IH)
          with e3 show ?thesis by (rule epoch_extension_trans)
        next
          case (Some c)
          define st4 where "st4 = emit (CriterionCall l) st3"
          have "epoch_extension st3 st4"
            unfolding st4_def by (rule epoch_extension_emit) simp
          with e3 have e4: "epoch_extension st st4" by (rule epoch_extension_trans)
          show ?thesis
          proof (cases "criterion_call c l")
            case (Inl err)
            with Suc.prems rb Inr False ltest Some have "st' = st4"
              by (simp add: Let_def st2_def st3_def st4_def l_def)
            with e4 show ?thesis by simp
          next
            case stop: (Inr stop)
            show ?thesis
            proof (cases stop)
              case True
              with Suc.prems rb Inr False ltest Some stop have "st' = st4"
                by (simp add: Let_def st2_def st3_def st4_def l_def)
              with e4 show ?thesis by simp
            next
              case no: False
              with Suc.prems rb Inr False ltest Some stop
              have "run_epochs ev cbs crit ht (Suc e) k st4 = (st', r)"
                by (simp add: Let_def st2_def st3_def st4_def l_def)
              then have "epoch_extension st4 st'" by (rule Suc.IH)
              with e4 show ?thesis by (rule epoch_extension_trans)
            qed
          qed
        qed
      qed
    qed
  qed
qed

subsection \<open>The callbacks list and the state before the loop\<close>

lemma list_append_nth:
  "a < length h \<Longrightarrow> list_append h a c ! a = h ! a @ [c]"
  by (simp add: list_append_def)

lemma list_append_length: "length (list_append h a c) = length h"
  by (simp add: list_append_def)

lemma list_append_other: "b \<noteq> a \<Longrightarrow> list_append h a c ! b = h ! b"
  by (simp add: list_append_def)

lemma appended_nth:
  assumes "a < length h1"
  shows "appended tr args h1 a ! a = h1 ! a @ own_callbacks tr args"
  using assms
  by (simp add: appended_def own_callbacks_def Let_def list_append_nth list_append_length
      split: lr_scheduler_arg.splits bool.splits)

lemma appended_other:
  "b \<noteq> a \<Longrightarrow> appended tr args h1 a ! b = h1 ! b"
  by (simp add: appended_def Let_def list_append_other
      split: lr_scheduler_arg.splits bool.splits)

lemma appended_length: "length (appended tr args h1 a) = length h1"
  by (simp add: appended_def Let_def list_append_length
      split: lr_scheduler_arg.splits bool.splits)

lemma callbacks_or_new_result:
  assumes "valid_reference args st"
    and "callbacks_or_new (objects st) (callbacks args) = (h1, a)"
  shows "a < length h1"
    and "h1 ! a = (case callbacks args of None \<Rightarrow> [] | Some b \<Rightarrow> objects st ! b)"
  using assms
  by (auto simp: valid_reference_def callbacks_or_new_def nth_append
      split: option.splits if_splits)

lemma lists_prepared_steps:
  "objects (emit_all xs ((emit x (if b then emit y (st\<lparr>objects := h\<rparr>) else st\<lparr>objects := h\<rparr>))
      \<lparr>operator_device := d\<rparr>)) = h"
  "objects (emit z (emit_all ys (emit_all xs ((emit x (if b then emit y (st\<lparr>objects := h\<rparr>) else st\<lparr>objects := h\<rparr>))
      \<lparr>operator_device := d\<rparr>)))) = h"
  by simp_all

lemma fit_unfold:
  assumes "callbacks_or_new (objects st) (callbacks args) = (h1, a)"
  shows "fit tr ev args st =
     (case run_epochs ev (appended tr args h1 a ! a)
             (Some (default_criterion (criterion args) (test_dataset args) (tol args)))
             (test_dataset args) 0 (nat (epochs args))
             (prepared tr ev args st (appended tr args h1 a) a) of
        (st7, Some err) \<Rightarrow> (st7, Some err)
      | (st7, None) \<Rightarrow>
          ((emit (OperatorTo cpu) (emit_all (map OnTrainEnd (objects st7 ! a)) st7))
             \<lparr>operator_device := cpu\<rparr>, None))"
  unfolding fit_def Let_def assms prod.case
  apply (simp only: appended_def [unfolded Let_def, symmetric])
  apply (simp only: lists_prepared_steps)
  apply (simp only: prepared_def [symmetric])
  done

lemma prepared_simps:
  "trace (prepared tr ev args st h a) = trace st
     @ (if verbose tr then [Print (ModelParameters (num_params ev))] else [])
     @ [OperatorTo (device tr)] @ setup_events tr ev args
     @ map OnTrainBegin (h ! a) @ [OperatorTrain]"
  "objects (prepared tr ev args st h a) = h"
  "operator_device (prepared tr ev args st h a) = device tr"
  by (simp_all add: prepared_def)

lemma fit_outcome:
  assumes "callbacks_or_new (objects st) (callbacks args) = (h1, a)"
  shows "\<exists>st7. epoch_extension (prepared tr ev args st (appended tr args h1 a) a) st7
           \<and> fit tr ev args st =
               (if snd (fit tr ev args st) = None
                then (emit (OperatorTo cpu) (emit_all (map OnTrainEnd (objects st7 ! a)) st7))
                       \<lparr>operator_device := cpu\<rparr>
                else st7, snd (fit tr ev args st))"
proof -
  let ?p = "prepared tr ev args st (appended tr args h1 a) a"
  let ?run = "run_epochs ev (appended tr args h1 a ! a)
             (Some (default_criterion (criterion args) (test_dataset args) (tol args)))
             (test_dataset args) 0 (nat (epochs args)) ?p"
  obtain st7 r where run: "?run = (st7, r)" by (cases ?run)
  then have ext: "epoch_extension ?p st7" by (rule run_epochs_extension)
  have "fit tr ev args st =
               (if snd (fit tr ev args st) = None
                then (emit (OperatorTo cpu) (emit_all (map OnTrainEnd (objects st7 ! a)) st7))
                       \<lparr>operator_device := cpu\<rparr>
                else st7, snd (fit tr ev args st))"
    by (cases r) (simp_all add: fit_unfold [OF assms] run)
  with ext show ?thesis by blast
qed

lemma fit_lists:
  assumes "valid_reference args st"
    and "callbacks_or_new (objects st) (callbacks args) = (h1, a)"
  shows "objects (fst (fit tr ev args st)) = appended tr args h1 a"
proof -
  from fit_outcome [OF assms(2), of tr ev] obtain st7 where
    ext: "epoch_extension (prepared tr ev args st (appended tr args h1 a) a) st7"
    and f: "fit tr ev args st =
               (if snd (fit tr ev args st) = None
                then (emit (OperatorTo cpu) (emit_all (map OnTrainEnd (objects st7 ! a)) st7))
                       \<lparr>operator_device := cpu\<rparr>
                else st7, snd (fit tr ev args st))" by blast
  from ext have l7: "objects st7 = appended tr args h1 a"
    by (auto simp: epoch_extension_def prepared_simps)
  have "objects (fst (if snd (fit tr ev args st) = None
                then (emit (OperatorTo cpu) (emit_all (map OnTrainEnd (objects st7 ! a)) st7))
                       \<lparr>operator_device := cpu\<rparr>
                else st7, snd (fit tr ev args st))) = objects st7"
    by simp
  with f l7 show ?thesis by simp
qed

subsection \<open>When \<^verbatim>\<open>fit\<close> returns\<close>

text \<open>
  \<^verbatim>\<open>fit\<close> returns normally whenever the data loader is not empty, the losses can be
  computed and a test-loss criterion comes with a test data set, however many epochs run.
\<close>

lemma run_batches_returns:
  assumes "\<forall>b. \<exists>l. batch_loss ev e b = Inr l"
  shows "\<exists>st' s. run_batches ev e b k acc st = (st', Inr s)"
proof (induction k arbitrary: b acc st)
  case 0
  show ?case by simp
next
  case (Suc k)
  from assms obtain l where "batch_loss ev e b = Inr l" by blast
  with Suc.IH [of "Suc b" "acc + l" "emit (OptimizerStep e b) st"]
  show ?case by (simp add: Let_def)
qed

lemma criterion_call_returns:
  assumes "ht \<or> (\<forall>t. c \<noteq> TestLossCriterion t)" and "ht \<longrightarrow> loss_test l \<noteq> None"
  shows "\<exists>b. criterion_call c l = Inr b"
  using assms by (cases c) (auto split: option.splits)

lemma run_epochs_returns:
  assumes "0 < num_batches ev"
    and "\<forall>e b. \<exists>l. batch_loss ev e b = Inr l"
    and "\<forall>e. \<exists>l. test_loss ev e = Inr l"
    and "ht \<or> (\<forall>t. c \<noteq> TestLossCriterion t)"
  shows "snd (run_epochs ev cbs (Some c) ht e k st) = None"
proof (induction k arbitrary: e st)
  case 0
  show ?case by simp
next
  case (Suc k)
  from assms(2) have "\<forall>b. \<exists>l. batch_loss ev e b = Inr l" by blast
  from run_batches_returns [OF this, of 0 "num_batches ev" 0 st]
  obtain st1 s where rb: "run_batches ev e 0 (num_batches ev) 0 st = (st1, Inr s)" by blast
  from assms(3) obtain lt where lt: "test_loss ev e = Inr lt" by blast
  define ltest where "ltest = (if ht then Some lt else None)"
  have tl: "(if ht then map_sum id Some (test_loss ev e) else Inr None) = Inr ltest"
    by (simp add: lt ltest_def)
  define l where "l = \<lparr>epoch = e + 1, loss_train = s / real (num_batches ev), loss_test = ltest\<rparr>"
  have "ht \<longrightarrow> loss_test l \<noteq> None" by (simp add: l_def ltest_def)
  with assms(4) obtain b where cc: "criterion_call c l = Inr b"
    using criterion_call_returns by blast
  show ?case
  proof (cases b)
    case True
    with rb tl cc assms(1) show ?thesis by (simp add: Let_def l_def)
  next
    case False
    with rb tl cc assms(1) Suc.IH show ?thesis by (simp add: Let_def l_def)
  qed
qed

lemma fit_returns:
  assumes "0 < num_batches ev"
    and "\<forall>e b. \<exists>l. batch_loss ev e b = Inr l"
    and "\<forall>e. \<exists>l. test_loss ev e = Inr l"
    and "test_dataset args \<or> (\<forall>t. criterion args \<noteq> Some (TestLossCriterion t))"
  shows "snd (fit tr ev args st) = None"
proof -
  obtain h1 a where c: "callbacks_or_new (objects st) (callbacks args) = (h1, a)"
    by (cases "callbacks_or_new (objects st) (callbacks args)")
  let ?c = "default_criterion (criterion args) (test_dataset args) (tol args)"
  from assms(4) have "test_dataset args \<or> (\<forall>t. ?c \<noteq> TestLossCriterion t)"
    by (auto simp: default_criterion_def split: option.splits)
  from run_epochs_returns [OF assms(1-3) this]
  have "snd (run_epochs ev (appended tr args h1 a ! a) (Some ?c) (test_dataset args) 0
          (nat (epochs args)) (prepared tr ev args st (appended tr args h1 a) a)) = None" .
  then show ?thesis
    unfolding fit_unfold [OF c] by (auto split: prod.splits option.splits)
qed

lemma fit_normal_trace:
  assumes "callbacks_or_new (objects st) (callbacks args) = (h1, a)"
    and "snd (fit tr ev args st) = None"
  shows "\<exists>mid. (\<forall>x\<in>set mid. epoch_event x)
           \<and> trace (fst (fit tr ev args st)) = trace st
               @ (if verbose tr then [Print (ModelParameters (num_params ev))] else [])
               @ [OperatorTo (device tr)] @ setup_events tr ev args
               @ map OnTrainBegin (appended tr args h1 a ! a) @ [OperatorTrain]
               @ mid @ map OnTrainEnd (appended tr args h1 a ! a) @ [OperatorTo cpu]
           \<and> operator_device (fst (fit tr ev args st)) = cpu"
proof -
  from fit_outcome [OF assms(1), of tr ev] assms(2) obtain st7 where
    ext: "epoch_extension (prepared tr ev args st (appended tr args h1 a) a) st7"
    and f: "fit tr ev args st =
              ((emit (OperatorTo cpu) (emit_all (map OnTrainEnd (objects st7 ! a)) st7))
                 \<lparr>operator_device := cpu\<rparr>, None)" by auto
  from ext obtain mid where mid: "\<forall>x\<in>set mid. epoch_event x"
    and t7: "trace st7 = trace (prepared tr ev args st (appended tr args h1 a) a) @ mid"
    and o7: "objects st7 = appended tr args h1 a"
    by (auto simp: epoch_extension_def prepared_simps)
  have "trace (fst (fit tr ev args st)) = trace st7 @ map OnTrainEnd (objects st7 ! a) @ [OperatorTo cpu]"
    and "operator_device (fst (fit tr ev args st)) = cpu"
    by (simp_all add: f)
  with mid t7 o7 show ?thesis by (intro exI [of _ mid]) (simp add: prepared_simps)
qed

lemma appended_effective:
  assumes "valid_reference args st"
    and "callbacks_or_new (objects st) (callbacks args) = (h1, a)"
  shows "appended tr args h1 a ! a = effective_callbacks tr args st"
  using callbacks_or_new_result [OF assms] by (simp add: appended_nth effective_callbacks_def)

lemma count_list_absent: "\<forall>x\<in>set xs. x \<noteq> y \<Longrightarrow> count_list xs y = 0"
  by (induction xs) simp_all

lemma count_list_distinct: "distinct xs \<Longrightarrow> x \<in> set xs \<Longrightarrow> count_list xs x = 1"
  by (induction xs) auto

lemma count_begin_map:
  "count_list (map OnTrainBegin cbs) (OnTrainBegin c) = count_list cbs c"
  "count_list (map OnTrainEnd cbs) (OnTrainBegin c) = 0"
  "count_list (map OnTrainEnd cbs) (OnTrainEnd c) = count_list cbs c"
  "count_list (map OnTrainBegin cbs) (OnTrainEnd c) = 0"
  by (induction cbs) simp_all

lemma preparation_not_lifecycle:
  "preparation_event x \<Longrightarrow> x \<noteq> OnTrainBegin c \<and> x \<noteq> OnTrainEnd c"
  by (cases x) simp_all

lemma epoch_not_lifecycle:
  "epoch_event x \<Longrightarrow> x \<noteq> OnTrainBegin c \<and> x \<noteq> OnTrainEnd c \<and> x \<noteq> OperatorTo d"
  by (cases x) simp_all

lemma setup_events_preparation: "\<forall>x\<in>set (setup_events tr ev args). preparation_event x"
  by (simp add: setup_events_def)

lemma setup_events_no_move: "\<forall>x\<in>set (setup_events tr ev args). \<forall>d. x \<noteq> OperatorTo d"
  by (simp add: setup_events_def)

subsection \<open>The logs passed to the criterion\<close>

text \<open>
  With a data loader that is not empty and batch losses \<open>bl e b\<close> that can be computed,
  the loop under \<^verbatim>\<open>TrainingLossCriterion(t)\<close> ends normally, and the criterion has seen the
  logs of the epochs until the first whose mean training loss is at most \<open>t\<close>.
\<close>

lemma criterion_logs_append:
  "criterion_logs (xs @ ys) = criterion_logs xs @ criterion_logs ys"
  by (induction xs rule: criterion_logs.induct) simp_all

lemma criterion_logs_none:
  "\<forall>x\<in>set xs. \<forall>l. x \<noteq> CriterionCall l \<Longrightarrow> criterion_logs xs = []"
  by (induction xs rule: criterion_logs.induct) simp_all

lemma criterion_logs_callbacks: "criterion_logs (map (\<lambda>c. CallbackCall c l) cbs) = []"
  by (rule criterion_logs_none) auto

lemma criterion_logs_setup: "criterion_logs (setup_events tr ev args) = []"
  by (rule criterion_logs_none) (auto simp: setup_events_def)

lemma criterion_logs_begin: "criterion_logs (map OnTrainBegin cbs) = []"
  by (rule criterion_logs_none) auto

lemma criterion_logs_end: "criterion_logs (map OnTrainEnd cbs) = []"
  by (rule criterion_logs_none) auto

lemma run_batches_sum:
  assumes "\<forall>b. batch_loss ev e b = Inr (bl b)"
  shows "\<exists>st'. run_batches ev e b k acc st = (st', Inr (acc + (\<Sum>i<k. bl (b + i))))
           \<and> criterion_logs (trace st') = criterion_logs (trace st)"
proof (induction k arbitrary: b acc st)
  case 0
  show ?case by simp
next
  case (Suc k)
  from assms have bl: "batch_loss ev e b = Inr (bl b)" by blast
  from Suc.IH [of "Suc b" "acc + bl b" "emit (OptimizerStep e b) st"]
  obtain st' where rb: "run_batches ev e (Suc b) k (acc + bl b) (emit (OptimizerStep e b) st)
        = (st', Inr (acc + bl b + (\<Sum>i<k. bl (Suc b + i))))"
    and cl: "criterion_logs (trace st') = criterion_logs (trace (emit (OptimizerStep e b) st))"
    by blast
  have "(\<Sum>i<Suc k. bl (b + i)) = bl b + (\<Sum>i<k. bl (Suc b + i))"
    using sum.lessThan_Suc_shift [of "\<lambda>i. bl (b + i)" k] by (simp del: sum.lessThan_Suc)
  with rb cl bl show ?case by (simp add: Let_def criterion_logs_append del: sum.lessThan_Suc)
qed

lemma run_epochs_training_loss:
  assumes "0 < num_batches ev" and "\<forall>e b. batch_loss ev e b = Inr (bl e b)"
  shows "\<exists>st'. run_epochs ev cbs (Some (TrainingLossCriterion t)) False e k st = (st', None)
           \<and> criterion_logs (trace st')
             = criterion_logs (trace st)
               @ map (\<lambda>e. \<lparr>epoch = e + 1,
                           loss_train = (\<Sum>b<num_batches ev. bl e b) / real (num_batches ev),
                           loss_test = None\<rparr>)
                   (stopping_epochs (\<lambda>e. (\<Sum>b<num_batches ev. bl e b) / real (num_batches ev)) t e k)"
proof (induction k arbitrary: e st)
  case 0
  show ?case by simp
next
  case (Suc k)
  let ?mean = "\<lambda>e. (\<Sum>b<num_batches ev. bl e b) / real (num_batches ev)"
  let ?logs = "\<lambda>e. \<lparr>epoch = e + 1, loss_train = ?mean e, loss_test = None\<rparr>"
  from assms(2) have "\<forall>b. batch_loss ev e b = Inr (bl e b)" by blast
  from run_batches_sum [OF this, of 0 "num_batches ev" 0 st]
  obtain st1 where rb: "run_batches ev e 0 (num_batches ev) 0 st
        = (st1, Inr (\<Sum>b<num_batches ev. bl e b))"
    and c1: "criterion_logs (trace st1) = criterion_logs (trace st)" by auto
  define st4 where "st4 = emit (CriterionCall (?logs e))
                            (emit_all (map (\<lambda>c. CallbackCall c (?logs e)) cbs) st1)"
  have c4: "criterion_logs (trace st4) = criterion_logs (trace st) @ [?logs e]"
    by (simp add: st4_def criterion_logs_append criterion_logs_callbacks c1)
  show ?case
  proof (cases "?mean e \<le> t")
    case True
    with rb assms(1) have "run_epochs ev cbs (Some (TrainingLossCriterion t)) False e (Suc k) st
        = (st4, None)"
      by (simp add: Let_def st4_def)
    with c4 True show ?thesis by simp
  next
    case False
    with rb assms(1) have "run_epochs ev cbs (Some (TrainingLossCriterion t)) False e (Suc k) st
        = run_epochs ev cbs (Some (TrainingLossCriterion t)) False (Suc e) k st4"
      by (simp add: Let_def st4_def)
    with Suc.IH [of "Suc e" st4] c4 False show ?thesis by auto
  qed
qed


subsection \<open>Two runs\<close>

text \<open>
  A verbose trainer whose criterion stops the loop after the first epoch (the mean training
  loss 1 equals the tolerance 1), and a quiet trainer on \<^verbatim>\<open>cuda:1\<close> without scheduler whose
  two epochs both run (tolerance 0).
\<close>

lemmas fit_eval = fit_def Trainer_init_def cpu_def cuda1_def py_or_def env_ex_def args_ex_def
  st_ex_def callbacks_or_new_def list_append_def emit_def emit_all_def setup_events_def
  default_criterion_def Let_def eval_nat_numeral

lemma fit_example_stop_on_first_epoch:
  "fit tr_cpu env_ex args_ex st_ex =
     (\<lparr>objects = [[UserCallback 0, PrintTrainingLoss, LinearLRScheduler 3]],
       trace =
         [Print (ModelParameters 10), OperatorTo cpu, Print (DeviceName cpu),
          CreateDataLoader 32 True False,
          OnTrainBegin (UserCallback 0), OnTrainBegin PrintTrainingLoss,
          OnTrainBegin (LinearLRScheduler 3),
          OperatorTrain,
          OptimizerStep 0 0, OptimizerStep 0 1,
          CallbackCall (UserCallback 0) \<lparr>epoch = 1, loss_train = 1, loss_test = None\<rparr>,
          CallbackCall PrintTrainingLoss \<lparr>epoch = 1, loss_train = 1, loss_test = None\<rparr>,
          CallbackCall (LinearLRScheduler 3) \<lparr>epoch = 1, loss_train = 1, loss_test = None\<rparr>,
          CriterionCall \<lparr>epoch = 1, loss_train = 1, loss_test = None\<rparr>,
          OnTrainEnd (UserCallback 0), OnTrainEnd PrintTrainingLoss,
          OnTrainEnd (LinearLRScheduler 3),
          OperatorTo cpu],
       operator_device = cpu\<rparr>, None)"
  by (simp add: fit_eval tr_cpu_def)

lemma fit_example_all_epochs:
  "fit tr_quiet env_ex (args_ex\<lparr>tol := 0, epochs := 2, lr_scheduler := LrFlag False\<rparr>) st_ex =
     (\<lparr>objects = [[UserCallback 0]],
       trace =
         [OperatorTo cuda1, CreateDataLoader 32 True False,
          OnTrainBegin (UserCallback 0),
          OperatorTrain,
          OptimizerStep 0 0, OptimizerStep 0 1,
          CallbackCall (UserCallback 0) \<lparr>epoch = 1, loss_train = 1, loss_test = None\<rparr>,
          CriterionCall \<lparr>epoch = 1, loss_train = 1, loss_test = None\<rparr>,
          OptimizerStep 1 0, OptimizerStep 1 1,
          CallbackCall (UserCallback 0) \<lparr>epoch = 2, loss_train = 1, loss_test = None\<rparr>,
          CriterionCall \<lparr>epoch = 2, loss_train = 1, loss_test = None\<rparr>,
          OnTrainEnd (UserCallback 0),
          OperatorTo cpu],
       operator_device = cpu\<rparr>, None)"
  by (simp add: fit_eval tr_quiet_def)

subsection \<open>The claims about the trainer\<close>

text \<open>
  Claim C5. When \<^verbatim>\<open>fit\<close> returns, the calls it has made are: preparation; then
  \<^verbatim>\<open>on_train_begin\<close> on every callback in effect, in list order; then the training loop,
  which holds every optimizer step and makes no lifecycle call; then \<^verbatim>\<open>on_train_end\<close> on
  every callback in effect; then the move back to the CPU. So each callback gets
  \<^verbatim>\<open>on_train_begin\<close> once for each time it is in the list, before the first batch, and
  \<^verbatim>\<open>on_train_end\<close> as often, after the last epoch that ran, whether the loop ran out of
  epochs or the criterion stopped it: exactly once each when the callbacks in effect are
  different objects.
\<close>

theorem fit_lifecycle_calls:
  assumes "valid_reference args st" and "snd (fit tr ev args st) = None"
    and "cbs = effective_callbacks tr args st"
  shows "\<exists>pre mid new.
           trace (fst (fit tr ev args st)) = trace st @ new
           \<and> new = pre @ map OnTrainBegin cbs @ [OperatorTrain] @ mid
                   @ map OnTrainEnd cbs @ [OperatorTo cpu]
           \<and> (\<forall>x\<in>set pre. preparation_event x) \<and> (\<forall>x\<in>set mid. epoch_event x)
           \<and> (\<forall>c. count_list new (OnTrainBegin c) = count_list cbs c
                   \<and> count_list new (OnTrainEnd c) = count_list cbs c)
           \<and> (distinct cbs \<longrightarrow>
                 (\<forall>c\<in>set cbs. count_list new (OnTrainBegin c) = 1
                             \<and> count_list new (OnTrainEnd c) = 1))"
proof -
  obtain h1 a where c: "callbacks_or_new (objects st) (callbacks args) = (h1, a)"
    by (cases "callbacks_or_new (objects st) (callbacks args)")
  have cbs: "appended tr args h1 a ! a = cbs"
    unfolding assms(3) using assms(1) c by (rule appended_effective)
  from fit_normal_trace [OF c assms(2)] obtain mid where mid: "\<forall>x\<in>set mid. epoch_event x"
    and tr: "trace (fst (fit tr ev args st)) = trace st
               @ (if verbose tr then [Print (ModelParameters (num_params ev))] else [])
               @ [OperatorTo (device tr)] @ setup_events tr ev args
               @ map OnTrainBegin cbs @ [OperatorTrain]
               @ mid @ map OnTrainEnd cbs @ [OperatorTo cpu]"
    unfolding cbs by blast
  define pre where "pre = (if verbose tr then [Print (ModelParameters (num_params ev))] else [])
               @ [OperatorTo (device tr)] @ setup_events tr ev args"
  define new where "new = pre @ map OnTrainBegin cbs @ [OperatorTrain] @ mid
                   @ map OnTrainEnd cbs @ [OperatorTo cpu]"
  have pre: "\<forall>x\<in>set pre. preparation_event x"
    using setup_events_preparation [of tr ev args] by (auto simp: pre_def)
  have p0: "count_list pre (OnTrainBegin c) = 0" "count_list pre (OnTrainEnd c) = 0" for c
    using pre preparation_not_lifecycle by (auto intro!: count_list_absent)
  have m0: "count_list mid (OnTrainBegin c) = 0" "count_list mid (OnTrainEnd c) = 0" for c
    using mid epoch_not_lifecycle by (auto intro!: count_list_absent)
  have counts: "\<forall>c. count_list new (OnTrainBegin c) = count_list cbs c
                   \<and> count_list new (OnTrainEnd c) = count_list cbs c"
    by (simp add: new_def p0 m0 count_begin_map)
  have once: "distinct cbs \<longrightarrow>
                 (\<forall>c\<in>set cbs. count_list new (OnTrainBegin c) = 1
                             \<and> count_list new (OnTrainEnd c) = 1)"
    using counts by (simp add: count_list_distinct)
  from tr have "trace (fst (fit tr ev args st)) = trace st @ new"
    by (simp add: new_def pre_def)
  with pre mid counts once new_def show ?thesis by blast
qed

theorem fit_lifecycle_calls_witness:
  "\<exists>pre mid new.
      trace (fst (fit tr_cpu env_ex args_ex st_ex)) = trace st_ex @ new
      \<and> new = pre @ map OnTrainBegin [UserCallback 0, PrintTrainingLoss, LinearLRScheduler 3]
              @ [OperatorTrain] @ mid
              @ map OnTrainEnd [UserCallback 0, PrintTrainingLoss, LinearLRScheduler 3]
              @ [OperatorTo cpu]
      \<and> (\<forall>x\<in>set pre. preparation_event x) \<and> (\<forall>x\<in>set mid. epoch_event x)
      \<and> (\<forall>c. count_list new (OnTrainBegin c)
                = count_list [UserCallback 0, PrintTrainingLoss, LinearLRScheduler 3] c
              \<and> count_list new (OnTrainEnd c)
                = count_list [UserCallback 0, PrintTrainingLoss, LinearLRScheduler 3] c)
      \<and> (distinct [UserCallback 0, PrintTrainingLoss, LinearLRScheduler 3] \<longrightarrow>
            (\<forall>c\<in>set [UserCallback 0, PrintTrainingLoss, LinearLRScheduler 3].
                count_list new (OnTrainBegin c) = 1 \<and> count_list new (OnTrainEnd c) = 1))"
proof -
  have v: "valid_reference args_ex st_ex"
    by (simp add: valid_reference_def args_ex_def st_ex_def)
  have r: "snd (fit tr_cpu env_ex args_ex st_ex) = None"
    by (simp add: fit_example_stop_on_first_epoch)
  have c: "[UserCallback 0, PrintTrainingLoss, LinearLRScheduler 3]
           = effective_callbacks tr_cpu args_ex st_ex"
    by (simp add: effective_callbacks_def own_callbacks_def tr_cpu_def Trainer_init_def
        cpu_def py_or_def args_ex_def st_ex_def)
  from fit_lifecycle_calls [OF v r c] show ?thesis .
qed

text \<open>
  Claim C7. \<^verbatim>\<open>TrainingLossCriterion(tol)\<close> answers with \<^verbatim>\<open>loss_train <= tol\<close>, the boundary
  included. \<^verbatim>\<open>fit\<close> takes \<^verbatim>\<open>TrainingLossCriterion(tol)\<close> when it is given no criterion and
  no test data set, and the caller's criterion when there is one. So in a call without
  criterion and without test data set, on a data loader that is not empty and with batch
  losses \<open>bl e b\<close> that can be computed, \<^verbatim>\<open>fit\<close> returns, and the logs it has passed to
  the criterion are those of the epochs up to and including the first whose mean training
  loss is at most \<^verbatim>\<open>tol\<close>, and of all \<^verbatim>\<open>epochs\<close> epochs when there is none: epoch
  \<open>e + 1\<close> runs only if the mean training loss of epoch \<open>e\<close> is above \<^verbatim>\<open>tol\<close>. The
  witnesses are a run that stops on the boundary \<^verbatim>\<open>loss_train == tol\<close> after one epoch and
  a run with a smaller tolerance, whose three epochs all run.
\<close>

theorem default_training_loss_criterion:
  assumes "criterion args = None" and "\<not> test_dataset args"
    and "0 < num_batches ev" and "\<forall>e b. batch_loss ev e b = Inr (bl e b)"
  shows "criterion_call (TrainingLossCriterion t) l = Inr (loss_train l \<le> t)
         \<and> default_criterion None False t = TrainingLossCriterion t
         \<and> default_criterion (Some c) has_test t = c
         \<and> snd (fit tr ev args st) = None
         \<and> criterion_logs (trace (fst (fit tr ev args st)))
           = criterion_logs (trace st)
             @ map (\<lambda>e. \<lparr>epoch = e + 1,
                         loss_train = (\<Sum>b<num_batches ev. bl e b) / real (num_batches ev),
                         loss_test = None\<rparr>)
                 (stopping_epochs (\<lambda>e. (\<Sum>b<num_batches ev. bl e b) / real (num_batches ev))
                    (tol args) 0 (nat (epochs args)))"
proof -
  let ?mean = "\<lambda>e. (\<Sum>b<num_batches ev. bl e b) / real (num_batches ev)"
  let ?logs = "\<lambda>e. \<lparr>epoch = e + 1, loss_train = ?mean e, loss_test = None\<rparr>"
  obtain h1 a where c: "callbacks_or_new (objects st) (callbacks args) = (h1, a)"
    by (cases "callbacks_or_new (objects st) (callbacks args)")
  let ?p = "prepared tr ev args st (appended tr args h1 a) a"
  from assms(1,2) have d: "default_criterion (criterion args) (test_dataset args) (tol args)
      = TrainingLossCriterion (tol args)"
    by (simp add: default_criterion_def)
  from run_epochs_training_loss [OF assms(3,4), of "appended tr args h1 a ! a" "tol args" 0
      "nat (epochs args)" ?p]
  obtain st7 where run: "run_epochs ev (appended tr args h1 a ! a)
        (Some (TrainingLossCriterion (tol args))) False 0 (nat (epochs args)) ?p = (st7, None)"
    and c7: "criterion_logs (trace st7) = criterion_logs (trace ?p)
               @ map ?logs (stopping_epochs ?mean (tol args) 0 (nat (epochs args)))"
    by blast
  have cp: "criterion_logs (trace ?p) = criterion_logs (trace st)"
    by (simp add: prepared_simps criterion_logs_append criterion_logs_setup criterion_logs_begin)
  from run d assms(2) have f: "fit tr ev args st
      = ((emit (OperatorTo cpu) (emit_all (map OnTrainEnd (objects st7 ! a)) st7))
           \<lparr>operator_device := cpu\<rparr>, None)"
    by (simp add: fit_unfold [OF c])
  have "criterion_logs (trace (fst (fit tr ev args st))) = criterion_logs (trace st7)"
    by (simp add: f criterion_logs_append criterion_logs_end)
  with c7 cp f show ?thesis by (simp add: default_criterion_def)
qed

theorem default_training_loss_criterion_witness:
  "criterion_call (TrainingLossCriterion 1) \<lparr>epoch = 1, loss_train = 1, loss_test = None\<rparr>
     = Inr True
   \<and> default_criterion None False 1 = TrainingLossCriterion 1
   \<and> snd (fit tr_cpu env_ex args_ex st_ex) = None
   \<and> criterion_logs (trace (fst (fit tr_cpu env_ex args_ex st_ex)))
     = [\<lparr>epoch = 1, loss_train = 1, loss_test = None\<rparr>]
   \<and> criterion_logs (trace (fst (fit tr_cpu env_ex (args_ex\<lparr>tol := 1 / 2\<rparr>) st_ex)))
     = [\<lparr>epoch = 1, loss_train = 1, loss_test = None\<rparr>,
        \<lparr>epoch = 2, loss_train = 1, loss_test = None\<rparr>,
        \<lparr>epoch = 3, loss_train = 1, loss_test = None\<rparr>]"
proof -
  have a: "criterion args_ex = None" "\<not> test_dataset args_ex" "tol args_ex = 1"
    "nat (epochs args_ex) = Suc (Suc (Suc 0))"
    by (simp_all add: args_ex_def)
  have e: "0 < num_batches env_ex" "\<forall>e b. batch_loss env_ex e b = Inr ((\<lambda>e b. 1) e b)"
    "num_batches env_ex = 2"
    by (simp_all add: env_ex_def)
  have s: "trace st_ex = []" by (simp add: st_ex_def)
  from default_training_loss_criterion [of args_ex env_ex "\<lambda>e b. 1" 1
         "\<lparr>epoch = 1, loss_train = 1, loss_test = None\<rparr>" _ _ tr_cpu st_ex, OF a(1,2) e(1,2)]
  have one: "criterion_call (TrainingLossCriterion 1) \<lparr>epoch = 1, loss_train = 1, loss_test = None\<rparr>
     = Inr True
   \<and> default_criterion None False 1 = TrainingLossCriterion 1
   \<and> snd (fit tr_cpu env_ex args_ex st_ex) = None
   \<and> criterion_logs (trace (fst (fit tr_cpu env_ex args_ex st_ex)))
     = [\<lparr>epoch = 1, loss_train = 1, loss_test = None\<rparr>]"
    by (simp add: a e(3) s)
  have a': "criterion (args_ex\<lparr>tol := 1 / 2\<rparr>) = None" "\<not> test_dataset (args_ex\<lparr>tol := 1 / 2\<rparr>)"
    by (simp_all add: args_ex_def)
  from default_training_loss_criterion [of "args_ex\<lparr>tol := 1 / 2\<rparr>" env_ex "\<lambda>e b. 1" 1
         "\<lparr>epoch = 1, loss_train = 1, loss_test = None\<rparr>" _ _ tr_cpu st_ex, OF a' e(1,2)]
  have two: "criterion_logs (trace (fst (fit tr_cpu env_ex (args_ex\<lparr>tol := 1 / 2\<rparr>) st_ex)))
     = [\<lparr>epoch = 1, loss_train = 1, loss_test = None\<rparr>,
        \<lparr>epoch = 2, loss_train = 1, loss_test = None\<rparr>,
        \<lparr>epoch = 3, loss_train = 1, loss_test = None\<rparr>]"
    by (simp add: a e(3) s)
  from one two show ?thesis by simp
qed

text \<open>
  Claim C8. When \<^verbatim>\<open>fit\<close> returns, the operator is on the CPU. Before the move to the
  trainer's device \<^verbatim>\<open>fit\<close> has only printed; everything else, the training loop included,
  lies between that move and the final move to the CPU, with no other move in between.
\<close>

theorem fit_device_placement:
  assumes "snd (fit tr ev args st) = None"
  shows "operator_device (fst (fit tr ev args st)) = cpu
         \<and> (\<exists>pre body. trace (fst (fit tr ev args st))
                 = trace st @ pre @ [OperatorTo (device tr)] @ body @ [OperatorTo cpu]
               \<and> (\<forall>x\<in>set pre. \<exists>m. x = Print m)
               \<and> (\<forall>x\<in>set body. \<forall>d. x \<noteq> OperatorTo d))"
proof -
  obtain h1 a where c: "callbacks_or_new (objects st) (callbacks args) = (h1, a)"
    by (cases "callbacks_or_new (objects st) (callbacks args)")
  let ?cbs = "appended tr args h1 a ! a"
  from fit_normal_trace [OF c assms] obtain mid where mid: "\<forall>x\<in>set mid. epoch_event x"
    and tr: "trace (fst (fit tr ev args st)) = trace st
               @ (if verbose tr then [Print (ModelParameters (num_params ev))] else [])
               @ [OperatorTo (device tr)] @ setup_events tr ev args
               @ map OnTrainBegin ?cbs @ [OperatorTrain]
               @ mid @ map OnTrainEnd ?cbs @ [OperatorTo cpu]"
    and dev: "operator_device (fst (fit tr ev args st)) = cpu"
    by blast
  define pre where "pre = (if verbose tr then [Print (ModelParameters (num_params ev))] else [])"
  define body where "body = setup_events tr ev args @ map OnTrainBegin ?cbs @ [OperatorTrain]
               @ mid @ map OnTrainEnd ?cbs"
  have pre: "\<forall>x\<in>set pre. \<exists>m. x = Print m" by (simp add: pre_def)
  have body: "\<forall>x\<in>set body. \<forall>d. x \<noteq> OperatorTo d"
    using mid epoch_not_lifecycle setup_events_no_move [of tr ev args]
    by (auto simp: body_def)
  from tr have "trace (fst (fit tr ev args st))
                 = trace st @ pre @ [OperatorTo (device tr)] @ body @ [OperatorTo cpu]"
    by (simp add: pre_def body_def)
  with dev pre body show ?thesis by blast
qed

theorem fit_device_placement_witness:
  "operator_device (fst (fit tr_quiet env_ex
       (args_ex\<lparr>tol := 0, epochs := 2, lr_scheduler := LrFlag False\<rparr>) st_ex)) = cpu
   \<and> (\<exists>pre body. trace (fst (fit tr_quiet env_ex
           (args_ex\<lparr>tol := 0, epochs := 2, lr_scheduler := LrFlag False\<rparr>) st_ex))
         = trace st_ex @ pre @ [OperatorTo (device tr_quiet)] @ body @ [OperatorTo cpu]
       \<and> (\<forall>x\<in>set pre. \<exists>m. x = Print m)
       \<and> (\<forall>x\<in>set body. \<forall>d. x \<noteq> OperatorTo d))"
proof -
  have r: "snd (fit tr_quiet env_ex
       (args_ex\<lparr>tol := 0, epochs := 2, lr_scheduler := LrFlag False\<rparr>) st_ex) = None"
    by (simp add: fit_example_all_epochs)
  from fit_device_placement [OF r] show ?thesis .
qed

text \<open>
  Claim C9, as amended. \<^verbatim>\<open>fit\<close> appends its own callbacks to the caller's non-empty list
  object, which is longer afterwards exactly when the trainer is verbose or
  \<^verbatim>\<open>lr_scheduler\<close> is not \<^verbatim>\<open>False\<close>. This holds whether \<^verbatim>\<open>fit\<close> returns or raises.
\<close>

theorem fit_extends_callers_list:
  assumes "callbacks args = Some a" and "a < length (objects st)" and "objects st ! a \<noteq> []"
  shows "objects (fst (fit tr ev args st)) ! a = objects st ! a @ own_callbacks tr args
         \<and> (length (objects st ! a) < length (objects (fst (fit tr ev args st)) ! a))
             = (verbose tr \<or> lr_scheduler args \<noteq> LrFlag False)"
proof -
  from assms have v: "valid_reference args st" by (simp add: valid_reference_def)
  from assms have c: "callbacks_or_new (objects st) (callbacks args) = (objects st, a)"
    by (simp add: callbacks_or_new_def)
  from fit_lists [OF v c] assms(2)
  have eq: "objects (fst (fit tr ev args st)) ! a = objects st ! a @ own_callbacks tr args"
    by (simp add: appended_nth)
  have "(own_callbacks tr args \<noteq> []) = (verbose tr \<or> lr_scheduler args \<noteq> LrFlag False)"
    by (simp add: own_callbacks_def split: lr_scheduler_arg.splits bool.splits)
  with eq show ?thesis by auto
qed

theorem fit_extends_callers_list_witness:
  "objects (fst (fit tr_cpu env_ex args_ex st_ex)) ! 0
     = [UserCallback 0, PrintTrainingLoss, LinearLRScheduler 3]
   \<and> length (objects st_ex ! 0) < length (objects (fst (fit tr_cpu env_ex args_ex st_ex)) ! 0)"
proof -
  have "callbacks args_ex = Some 0" by (simp add: args_ex_def)
  moreover have "0 < length (objects st_ex)" by (simp add: st_ex_def)
  moreover have "objects st_ex ! 0 \<noteq> []" by (simp add: st_ex_def)
  ultimately have "objects (fst (fit tr_cpu env_ex args_ex st_ex)) ! 0
           = objects st_ex ! 0 @ own_callbacks tr_cpu args_ex
         \<and> (length (objects st_ex ! 0) < length (objects (fst (fit tr_cpu env_ex args_ex st_ex)) ! 0))
             = (verbose tr_cpu \<or> lr_scheduler args_ex \<noteq> LrFlag False)"
    by (rule fit_extends_callers_list)
  then show ?thesis
    by (simp add: own_callbacks_def tr_cpu_def Trainer_init_def cpu_def py_or_def args_ex_def
        st_ex_def)
qed

text \<open>
  A trainer on \<^verbatim>\<open>cuda:1\<close> built with \<^verbatim>\<open>verbose=False\<close> is not verbose; called with
  \<^verbatim>\<open>lr_scheduler=False\<close> it appends nothing, and the caller's list \<^verbatim>\<open>[cb]\<close> has one
  element after \<^verbatim>\<open>fit\<close> returns as before: claim C9 as it is stated fails there.
\<close>

theorem callers_list_not_longer_counterexample:
  "callbacks (args_ex\<lparr>tol := 0, epochs := 2, lr_scheduler := LrFlag False\<rparr>) = Some 0
   \<and> objects st_ex ! 0 = [UserCallback 0]
   \<and> snd (fit tr_quiet env_ex
        (args_ex\<lparr>tol := 0, epochs := 2, lr_scheduler := LrFlag False\<rparr>) st_ex) = None
   \<and> objects (fst (fit tr_quiet env_ex
        (args_ex\<lparr>tol := 0, epochs := 2, lr_scheduler := LrFlag False\<rparr>) st_ex)) ! 0
       = [UserCallback 0]
   \<and> \<not> length (objects st_ex ! 0)
        < length (objects (fst (fit tr_quiet env_ex
            (args_ex\<lparr>tol := 0, epochs := 2, lr_scheduler := LrFlag False\<rparr>) st_ex)) ! 0)"
  by (simp add: fit_example_all_epochs) (simp add: args_ex_def st_ex_def)

text \<open>
  Claim C10. \<^verbatim>\<open>self.verbose\<close> is true exactly when the \<^verbatim>\<open>verbose\<close> argument is
  \<^verbatim>\<open>True\<close>, or the device has no index, or its index is 0. So it is true on such a
  device even for \<^verbatim>\<open>verbose=False\<close>, and false only for a non-zero index together with
  \<^verbatim>\<open>verbose\<close> being \<^verbatim>\<open>None\<close> or \<^verbatim>\<open>False\<close>.
\<close>

theorem init_verbose:
  "verbose (Trainer_init dev verbose_arg)
   = (verbose_arg = Some True \<or> index dev = None \<or> index dev = Some 0)"
  by (simp add: Trainer_init_def py_or_def split: option.splits bool.splits)

theorem init_verbose_witness:
  "verbose (Trainer_init cpu (Some False))
   \<and> verbose (Trainer_init \<lparr>dev_type = ''cuda'', index = Some 0\<rparr> (Some False))
   \<and> \<not> verbose (Trainer_init cuda1 (Some False))
   \<and> \<not> verbose (Trainer_init cuda1 None)
   \<and> verbose (Trainer_init cuda1 (Some True))"
  by (simp add: init_verbose cpu_def cuda1_def)

section \<open>Properties of the loss\<close>

lemma length_flatten: "has_shape s x \<Longrightarrow> length (flatten x) = prod_list s"
proof (induction x arbitrary: s)
  case (Scalar a)
  then show ?case by (cases s) simp_all
next
  case (Nest xs)
  from Nest.prems obtain n ns where s: "s = n # ns" and len: "length xs = n"
    and el: "\<forall>x\<in>set xs. has_shape ns x" by (rule has_shape_NestE)
  from Nest.IH el have "\<forall>x\<in>set xs. length (flatten x) = prod_list ns" by blast
  then have "map (\<lambda>x. length (flatten x)) xs = replicate (length xs) (prod_list ns)"
    by (simp add: map_replicate_const [symmetric] cong: map_cong)
  then show ?case by (simp add: s len length_concat comp_def sum_list_replicate)
qed

lemma concat_chunks:
  "length xs = n * p \<Longrightarrow> concat (map (\<lambda>i. take p (drop (i * p) xs)) [0..<n]) = xs"
proof (induction n arbitrary: xs)
  case 0
  then show ?case by simp
next
  case (Suc n)
  then have "length (drop p xs) = n * p" by simp
  then have "concat (map (\<lambda>i. take p (drop (i * p) (drop p xs))) [0..<n]) = drop p xs"
    by (rule Suc.IH)
  moreover have "map (\<lambda>i. take p (drop (i * p) xs)) [0..<Suc n]
        = take p xs # map (\<lambda>i. take p (drop (i * p) (drop p xs))) [0..<n]"
    by (simp add: upt_conv_Cons map_Suc_upt [symmetric] add.commute del: upt_Suc)
  ultimately show ?case by simp
qed

lemma chunk_length:
  assumes "length xs = n * p" and "i < n"
  shows "length (take p (drop (i * p) xs)) = p"
proof -
  from assms(2) have "Suc i \<le> n" by simp
  then have "Suc i * p \<le> n * p" by (rule mult_le_mono1)
  then have "p \<le> n * p - i * p" by simp
  with assms(1) show ?thesis by simp
qed

lemma flatten_unflatten:
  "length xs = prod_list s \<Longrightarrow> flatten (unflatten s xs) = xs \<and> has_shape s (unflatten s xs)"
proof (induction s arbitrary: xs)
  case Nil
  then obtain x where "xs = [x]" by (cases xs) auto
  then show ?case by simp
next
  case (Cons n s)
  let ?p = "prod_list s"
  let ?chunk = "\<lambda>i. take ?p (drop (i * ?p) xs)"
  from Cons.prems have len: "length xs = n * ?p" by simp
  have each: "\<forall>i\<in>set [0..<n]. flatten (unflatten s (?chunk i)) = ?chunk i
                \<and> has_shape s (unflatten s (?chunk i))"
  proof
    fix i assume "i \<in> set [0..<n]"
    then have "i < n" by simp
    with len have "length (?chunk i) = ?p" by (rule chunk_length)
    then show "flatten (unflatten s (?chunk i)) = ?chunk i \<and> has_shape s (unflatten s (?chunk i))"
      by (rule Cons.IH)
  qed
  then have m: "map (\<lambda>i. flatten (unflatten s (?chunk i))) [0..<n] = map ?chunk [0..<n]"
    by (intro map_cong) auto
  have "flatten (unflatten (n # s) xs)
        = concat (map (\<lambda>i. flatten (unflatten s (?chunk i))) [0..<n])"
    by (simp add: comp_def)
  also have "\<dots> = concat (map ?chunk [0..<n])" by (simp only: m)
  also have "\<dots> = xs" using len by (rule concat_chunks)
  finally have "flatten (unflatten (n # s) xs) = xs" .
  moreover from each have "has_shape (n # s) (unflatten (n # s) xs)" by simp
  ultimately show ?case by simp
qed

text \<open>The loss of two lists of equal length, entry by entry.\<close>

lemma mean_squared_error_sum:
  assumes "length ps = n" and "length vs = n"
  shows "mean_squared_error ps vs
         = (if n = 0 then NaN else Value ((\<Sum>i<n. (ps ! i - vs ! i)\<^sup>2) / real n))"
proof -
  define d where "d = map2 (\<lambda>p v. (p - v)\<^sup>2) ps vs"
  have len: "length d = n" using assms by (simp add: d_def)
  have "sum_list d = (\<Sum>i = 0..<length d. d ! i)" by (rule sum_list_sum_nth)
  also have "\<dots> = (\<Sum>i = 0..<n. (ps ! i - vs ! i)\<^sup>2)"
    using assms by (intro sum.cong) (simp_all add: d_def)
  finally have s: "sum_list d = (\<Sum>i<n. (ps ! i - vs ! i)\<^sup>2)"
    by (simp add: lessThan_atLeast0)
  have "mean_squared_error ps vs = (if d = [] then NaN else Value (sum_list d / real (length d)))"
    by (simp add: mean_squared_error_def d_def Let_def)
  also have "\<dots> = (if n = 0 then NaN else Value ((\<Sum>i<n. (ps ! i - vs ! i)\<^sup>2) / real n))"
    using len by (auto simp: s)
  finally show ?thesis .
qed

text \<open>
  Claim C6. \<^verbatim>\<open>MSELoss.__call__\<close> calls the operator on \<open>x\<close>, \<open>u\<close>, \<open>y\<close> and passes on
  what it raises. When the prediction has as many entries as the labels \<open>v\<close>, the reshape
  succeeds, the reshaped prediction has the shape of \<open>v\<close> and the entries of the prediction
  in the same order, and the result is the mean squared error over the entries: with \<open>N\<close>
  the number of entries of \<open>v\<close>, the sum over \<open>i < N\<close> of the squared difference
  between entry \<open>i\<close> of the prediction and entry \<open>i\<close> of \<open>v\<close>, both in row-major
  order, divided by \<open>N\<close>, and \<^verbatim>\<open>nan\<close> when there are no entries. When the numbers of
  entries differ, the call fails with the error of the reshape.
\<close>

theorem MSELoss_call_reshapes:
  assumes "\<forall>p. op x u y = Inr p \<longrightarrow> well_formed p" and "well_formed v"
  shows "MSELoss_call op x u y v =
           (case op x u y of
              Inl err \<Rightarrow> Inl err
            | Inr v_pred \<Rightarrow>
                if prod_list (shape v_pred) = prod_list (shape v)
                then Inr (if prod_list (shape v) = 0 then NaN
                          else Value ((\<Sum>i<prod_list (shape v).
                                         (flatten (entries v_pred) ! i - flatten (entries v) ! i)\<^sup>2)
                                      / real (prod_list (shape v))))
                else Inl RuntimeError)
         \<and> (\<forall>v_pred. op x u y = Inr v_pred \<and> prod_list (shape v_pred) = prod_list (shape v)
               \<longrightarrow> (\<exists>r. reshape v_pred (shape v) = Inr r \<and> shape r = shape v
                      \<and> well_formed r \<and> flatten (entries r) = flatten (entries v_pred)))"
proof -
  from assms(2) have lv: "length (flatten (entries v)) = prod_list (shape v)"
    by (simp add: well_formed_def length_flatten)
  have r: "reshape p (shape v) = Inr \<lparr>shape = shape v,
              entries = unflatten (shape v) (flatten (entries p))\<rparr>
           \<and> flatten (unflatten (shape v) (flatten (entries p))) = flatten (entries p)
           \<and> has_shape (shape v) (unflatten (shape v) (flatten (entries p)))
           \<and> length (flatten (entries p)) = prod_list (shape v)"
    if "op x u y = Inr p" and "prod_list (shape p) = prod_list (shape v)" for p
  proof -
    from assms(1) that(1) have "has_shape (shape p) (entries p)" by (simp add: well_formed_def)
    then have "length (flatten (entries p)) = prod_list (shape v)"
      using that(2) by (simp add: length_flatten)
    then show ?thesis using that(2) by (simp add: reshape_def flatten_unflatten)
  qed
  have one: "MSELoss_call op x u y v =
           (case op x u y of
              Inl err \<Rightarrow> Inl err
            | Inr v_pred \<Rightarrow>
                if prod_list (shape v_pred) = prod_list (shape v)
                then Inr (if prod_list (shape v) = 0 then NaN
                          else Value ((\<Sum>i<prod_list (shape v).
                                         (flatten (entries v_pred) ! i - flatten (entries v) ! i)\<^sup>2)
                                      / real (prod_list (shape v))))
                else Inl RuntimeError)"
  proof (cases "op x u y")
    case (Inl err)
    then show ?thesis by (simp add: MSELoss_call_def)
  next
    case (Inr p)
    show ?thesis
    proof (cases "prod_list (shape p) = prod_list (shape v)")
      case True
      from r [OF Inr True] have lp: "length (flatten (entries p)) = prod_list (shape v)" by simp
      from lp lv have "mean_squared_error (flatten (entries p)) (flatten (entries v))
          = (if prod_list (shape v) = 0 then NaN
             else Value ((\<Sum>i<prod_list (shape v).
                            (flatten (entries p) ! i - flatten (entries v) ! i)\<^sup>2)
                         / real (prod_list (shape v))))"
        by (rule mean_squared_error_sum)
      with r [OF Inr True] Inr True show ?thesis by (simp add: MSELoss_call_def mse_def)
    next
      case False
      with Inr show ?thesis by (simp add: MSELoss_call_def reshape_def)
    qed
  qed
  have two: "\<forall>v_pred. op x u y = Inr v_pred \<and> prod_list (shape v_pred) = prod_list (shape v)
               \<longrightarrow> (\<exists>r. reshape v_pred (shape v) = Inr r \<and> shape r = shape v
                      \<and> well_formed r \<and> flatten (entries r) = flatten (entries v_pred))"
    using r by (auto simp: well_formed_def)
  from one two show ?thesis ..
qed

theorem MSELoss_call_reshapes_witness:
  "MSELoss_call op_ex v_ex v_ex v_ex v_ex = Inr (Value (5 / 2))
   \<and> MSELoss_call op_ex v_ex v_ex v_ex v_three = Inl RuntimeError"
proof -
  have wf: "\<forall>p. op_ex v_ex v_ex v_ex = Inr p \<longrightarrow> well_formed p"
    by (auto simp: op_ex_def well_formed_def)
  have w1: "well_formed v_ex" by (simp add: well_formed_def v_ex_def)
  have w2: "well_formed v_three" by (simp add: well_formed_def v_three_def)
  from MSELoss_call_reshapes [of op_ex v_ex v_ex v_ex v_ex, OF wf w1]
    MSELoss_call_reshapes [of op_ex v_ex v_ex v_ex v_three, OF wf w2]
  show ?thesis
    by (simp add: op_ex_def v_ex_def v_three_def lessThan_Suc eval_nat_numeral)
qed

end
